theory Spec2Isabelle
  imports Main
begin

section \<open>LoRA references in prompts: scripts/mergers/prompt\_utils.py\<close>

text \<open>
  The module parses \<^verbatim>\<open><lora:name:weight[:lbw]>\<close> references out of a prompt, builds an
  index from training output names to file names, and matches the references against the
  list of selectable LoRAs. Python strings are modelled as \<^typ>\<open>string\<close>, one
  \<^typ>\<open>char\<close> per code point, so code points above 255 are not represented.
\<close>

subsection \<open>Python string operations\<close>

text \<open>\<^verbatim>\<open>str.isspace\<close> on one code point, for the code points below 256.\<close>

definition py_isspace :: "char \<Rightarrow> bool" where
  "py_isspace c \<longleftrightarrow>
     c \<in> set [CHR 0x09, CHR 0x0A, CHR 0x0B, CHR 0x0C, CHR 0x0D,
               CHR 0x1C, CHR 0x1D, CHR 0x1E, CHR 0x1F, CHR 0x20, CHR 0x85, CHR 0xA0]"

text \<open>\<^verbatim>\<open>s.strip()\<close>: leading and trailing whitespace removed.\<close>

definition py_strip :: "string \<Rightarrow> string" where
  "py_strip s = rev (dropWhile py_isspace (rev (dropWhile py_isspace s)))"

text \<open>\<^verbatim>\<open>s.lower()\<close>: ASCII and Latin-1 capitals are moved 32 code points up.\<close>

definition py_lower_char :: "char \<Rightarrow> char" where
  "py_lower_char c =
     (let n = (of_char c :: nat)
      in if (65 \<le> n \<and> n \<le> 90) \<or> (192 \<le> n \<and> n \<le> 222 \<and> n \<noteq> 215)
         then char_of (n + 32) else c)"

definition py_lower :: "string \<Rightarrow> string" where
  "py_lower s = map py_lower_char s"

text \<open>\<^verbatim>\<open>",".join(parts)\<close>.\<close>

fun join_comma :: "string list \<Rightarrow> string" where
  "join_comma [] = []"
| "join_comma [p] = p"
| "join_comma (p # q # ps) = p @ '','' @ join_comma (q # ps)"

subsection \<open>Floating point numbers as an interface\<close>

text \<open>
  The weight of a reference is a Python float: it is produced by \<^verbatim>\<open>float(text)\<close> or by
  the literal \<^verbatim>\<open>1.0\<close> and it is only ever consumed by the f-string \<^verbatim>\<open>f"{weight}"\<close>.
  Binary floating point is not modelled; the three operations are parameters of the
  model, over any type \<^typ>\<open>'w\<close> of weights. \<open>float_of_str\<close> returns \<open>None\<close> where
  \<^verbatim>\<open>float\<close> raises \<^verbatim>\<open>ValueError\<close>, the only exception it raises on a string.
\<close>

record 'w float_ops =
  float_of_str :: "string \<Rightarrow> 'w option"
  str_of_float :: "'w \<Rightarrow> string"
  float_one :: 'w

subsection \<open>The pattern and \<^verbatim>\<open>re.finditer\<close>\<close>

text \<open>
  The pattern is \<^verbatim>\<open><lora:([^:>]+):([^:>]+)(?::([^>]+))?>\<close>. Its two character classes:
\<close>

definition name_char :: "char \<Rightarrow> bool" where
  "name_char c \<longleftrightarrow> c \<noteq> CHR '':'' \<and> c \<noteq> CHR ''>''"

definition lbw_char :: "char \<Rightarrow> bool" where
  "lbw_char c \<longleftrightarrow> c \<noteq> CHR ''>''"

text \<open>
  One attempt of the regex engine to match the pattern at the start of \<open>s\<close>: the three
  groups and the text left after the match, or \<open>None\<close>. Each \<^verbatim>\<open>+\<close> is greedy and takes
  the longest run of its class; giving characters back never helps, because the character
  a shorter run would have to be followed by (\<^verbatim>\<open>:\<close> or \<^verbatim>\<open>>\<close>) is not in the run. The
  optional group is tried first; when it fails the engine needs \<^verbatim>\<open>>\<close> where the
  \<^verbatim>\<open>:\<close> stands, and fails too.
\<close>

definition match_here :: "string \<Rightarrow> (string \<times> string \<times> string option \<times> string) option" where
  "match_here s =
     (if take 6 s \<noteq> ''<lora:'' then None
      else let r1 = drop 6 s; g1 = takeWhile name_char r1; r2 = dropWhile name_char r1 in
        if g1 = [] \<or> r2 = [] \<or> hd r2 \<noteq> CHR '':'' then None
        else let r3 = tl r2; g2 = takeWhile name_char r3; r4 = dropWhile name_char r3 in
          if g2 = [] \<or> r4 = [] then None
          else if hd r4 = CHR ''>'' then Some (g1, g2, None, tl r4)
          else let r5 = tl r4; g3 = takeWhile lbw_char r5; r6 = dropWhile lbw_char r5 in
            if g3 = [] \<or> r6 = [] then None
            else Some (g1, g2, Some g3, tl r6))"

text \<open>A match object: its span in the prompt and its groups.\<close>

record re_match =
  m_start :: nat
  m_end :: nat
  group1 :: string
  group2 :: string
  group3 :: "string option"

text \<open>
  \<^verbatim>\<open>re.finditer(pattern, prompt)\<close>: the scan from position \<open>pos\<close>, where \<open>s\<close> is the
  prompt from \<open>pos\<close> on. After a match the scan goes on behind it; without one it moves
  one character to the right.
\<close>

function finditer_from :: "nat \<Rightarrow> string \<Rightarrow> re_match list" where
  "finditer_from pos s =
     (if s = [] then []
      else (case match_here s of
              None \<Rightarrow> finditer_from (Suc pos) (tl s)
            | Some (g1, g2, g3, rest) \<Rightarrow>
                \<lparr>m_start = pos, m_end = pos + (length s - length rest),
                 group1 = g1, group2 = g2, group3 = g3\<rparr>
                # finditer_from (pos + (length s - length rest)) rest))"
  by pat_completeness auto
termination
proof (relation "measure (\<lambda>(pos, s). length s)")
  show "wf (measure (\<lambda>(pos, s). length s))" by simp
next
  fix pos :: nat and s :: string
  assume "s \<noteq> []"
  then show "((Suc pos, tl s), (pos, s)) \<in> measure (\<lambda>(pos, s). length s)"
    by (cases s) auto
next
  fix pos :: nat and s x2 g1 y g2 ya g3 rest
  assume m: "match_here s = Some x2" "(g1, y) = x2" "(g2, ya) = y" "(g3, rest) = ya"
  have le: "\<And>P xs. length (dropWhile P xs) \<le> length (xs :: string)"
    by (simp add: length_dropWhile_le)
  define r2 where "r2 = dropWhile name_char (drop 6 s)"
  define r4 where "r4 = dropWhile name_char (tl r2)"
  define r6 where "r6 = dropWhile lbw_char (tl r4)"
  have l2: "length r2 \<le> length s" unfolding r2_def using le[of name_char "drop 6 s"] by simp
  have l4: "length r4 \<le> length r2" unfolding r4_def using le[of name_char "tl r2"] by simp
  have l6: "length r6 \<le> length r4" unfolding r6_def using le[of lbw_char "tl r4"] by simp
  from m have "(rest = tl r4 \<and> r4 \<noteq> []) \<or> (rest = tl r6 \<and> r6 \<noteq> [])"
    unfolding match_here_def Let_def r2_def r4_def r6_def by (auto split: if_splits)
  then have "length rest < length s"
    using l2 l4 l6 by (cases r4; cases r6) auto
  then show "((pos + (length s - length rest), rest), (pos, s)) \<in> measure (\<lambda>(pos, s). length s)"
    by simp
qed

declare finditer_from.simps [simp del]

definition finditer :: "string \<Rightarrow> re_match list" where
  "finditer prompt = finditer_from 0 prompt"

subsection \<open>parse\_lora\_syntax\<close>

text \<open>The weight: \<^verbatim>\<open>float(match.group(2))\<close>, and \<^verbatim>\<open>1.0\<close> on \<^verbatim>\<open>ValueError\<close>.\<close>

definition read_weight :: "'w float_ops \<Rightarrow> string \<Rightarrow> 'w" where
  "read_weight F text = (case float_of_str F text of Some w \<Rightarrow> w | None \<Rightarrow> float_one F)"

text \<open>
  One tuple per match: the name stripped, the weight, and the third group stripped when it
  took part in the match.
\<close>

definition parse_match :: "'w float_ops \<Rightarrow> re_match \<Rightarrow> string \<times> 'w \<times> string option" where
  "parse_match F m =
     (let name = py_strip (group1 m);
          weight = read_weight F (group2 m);
          lbw = (case group3 m of Some g \<Rightarrow> Some (py_strip g) | None \<Rightarrow> None)
      in (name, weight, lbw))"

definition parse_lora_syntax :: "'w float_ops \<Rightarrow> string \<Rightarrow> (string \<times> 'w \<times> string option) list" where
  "parse_lora_syntax F prompt = map (parse_match F) (finditer prompt)"

subsection \<open>Python values read from metadata\<close>

text \<open>
  What \<^verbatim>\<open>json.loads\<close> returns, and what a metadata attribute of the host can hold:
  \<^verbatim>\<open>None\<close>, booleans, numbers (integers only here), strings, lists and dicts with string
  keys (the items of the dict, keys distinct).
\<close>

datatype json =
    JNull
  | JBool bool
  | JNum int
  | JStr string
  | JArr "json list"
  | JObj "(string \<times> json) list"

datatype error = AttributeError | TypeError

text \<open>The truth value Python's \<^verbatim>\<open>if x:\<close> gives a value.\<close>

fun truthy :: "json \<Rightarrow> bool" where
  "truthy JNull = False"
| "truthy (JBool b) = b"
| "truthy (JNum n) = (n \<noteq> 0)"
| "truthy (JStr s) = (s \<noteq> [])"
| "truthy (JArr xs) = (xs \<noteq> [])"
| "truthy (JObj kvs) = (kvs \<noteq> [])"

text \<open>\<^verbatim>\<open>x.get(key, default)\<close>: only a dict has the method.\<close>

fun py_get :: "json \<Rightarrow> string \<Rightarrow> json \<Rightarrow> error + json" where
  "py_get (JObj kvs) key dflt = Inr (case map_of kvs key of Some v \<Rightarrow> v | None \<Rightarrow> dflt)"
| "py_get _ key dflt = Inl AttributeError"

text \<open>\<^verbatim>\<open>x.lower()\<close>: only a string has the method.\<close>

fun py_lower_method :: "json \<Rightarrow> error + string" where
  "py_lower_method (JStr s) = Inr (py_lower s)"
| "py_lower_method _ = Inl AttributeError"

text \<open>
  Keys of the lookup dict. Python hashes \<^verbatim>\<open>True\<close> and \<^verbatim>\<open>1\<close> to the same key; lists and
  dicts are unhashable, and storing under one raises \<^verbatim>\<open>TypeError\<close>.
\<close>

datatype pykey = KNone | KInt int | KStr string

fun hash_key :: "json \<Rightarrow> pykey option" where
  "hash_key JNull = Some KNone"
| "hash_key (JBool b) = Some (KInt (if b then 1 else 0))"
| "hash_key (JNum n) = Some (KInt n)"
| "hash_key (JStr s) = Some (KStr s)"
| "hash_key (JArr xs) = None"
| "hash_key (JObj kvs) = None"

type_synonym lookup = "pykey \<rightharpoonup> string"

subsection \<open>The host: registry, configuration and files\<close>

text \<open>A \<^verbatim>\<open>pathlib.Path\<close>, as it is built: \<^verbatim>\<open>Path(s)\<close> and \<^verbatim>\<open>p / name\<close>.\<close>

datatype path = Path string | Join path string

text \<open>
  An entry of \<^verbatim>\<open>lora.available_loras\<close>: an object without a \<^verbatim>\<open>metadata\<close> attribute, or
  with one holding some value.
\<close>

datatype lora_obj = NoMetadataAttr | HasMetadata json

text \<open>
  A file as \<^verbatim>\<open>load_lora_metadata\<close> sees it. Opening, reading the eight length bytes and
  the header, and \<^verbatim>\<open>json.loads\<close> all sit inside the \<^verbatim>\<open>try\<close>: either one of them
  raises, or the header is parsed to a value.
\<close>

datatype file_read = ReadFails | Header json

text \<open>
  The state of the host that \<^verbatim>\<open>build_output_name_lookup\<close> reads.
  \<^item> \<open>available_loras\<close>: \<open>None\<close> when \<^verbatim>\<open>import lora\<close> raises \<^verbatim>\<open>ImportError\<close>, else the
    items of \<^verbatim>\<open>lora.available_loras\<close> in iteration order;
  \<^item> \<open>has_webui\<close>: \<^verbatim>\<open>HAS_WEBUI and shared\<close>;
  \<^item> \<open>cmd_lora_dir\<close>: \<^verbatim>\<open>getattr(shared.cmd_opts, 'lora_dir', None)\<close>;
  \<^item> \<open>data_path\<close>: \<^verbatim>\<open>shared.data_path\<close>;
  \<^item> \<open>safetensors_under d\<close>: \<open>None\<close> when \<^verbatim>\<open>d.exists()\<close> is false, else the files
    \<^verbatim>\<open>d.glob("**/*.safetensors")\<close> yields, in order, each with its \<^verbatim>\<open>stem\<close>.
\<close>

record host_env =
  available_loras :: "(string \<times> lora_obj) list option"
  has_webui :: bool
  cmd_lora_dir :: "string option"
  data_path :: string
  safetensors_under :: "path \<Rightarrow> (string \<times> file_read) list option"

definition get_lora_directory :: "host_env \<Rightarrow> path option" where
  "get_lora_directory env =
     (if has_webui env then
        (case cmd_lora_dir env of
           Some d \<Rightarrow> if d \<noteq> [] then Some (Path d)
                     else Some (Join (Join (Path (data_path env)) ''models'') ''Lora'')
         | None \<Rightarrow> Some (Join (Join (Path (data_path env)) ''models'') ''Lora''))
      else None)"

text \<open>
  \<^verbatim>\<open>load_lora_metadata\<close>: \<^verbatim>\<open>header.get('__metadata__', {})\<close>, and \<^verbatim>\<open>None\<close> on any
  exception, also the one \<^verbatim>\<open>get\<close> raises on a header that is no dict.
\<close>

definition load_lora_metadata :: "file_read \<Rightarrow> json" where
  "load_lora_metadata f =
     (case f of
        ReadFails \<Rightarrow> JNull
      | Header header \<Rightarrow>
          (case py_get header ''__metadata__'' (JObj []) of
             Inl e \<Rightarrow> JNull
           | Inr metadata \<Rightarrow> metadata))"

subsection \<open>build\_output\_name\_lookup\<close>

text \<open>
  The body of the inner \<^verbatim>\<open>try\<close> of the registry loop, for one item. An object without
  the attribute or with a falsy one is passed over.
\<close>

definition registry_try :: "string \<Rightarrow> lora_obj \<Rightarrow> lookup \<Rightarrow> error + lookup" where
  "registry_try name lora_obj lookup =
     (case lora_obj of
        NoMetadataAttr \<Rightarrow> Inr lookup
      | HasMetadata metadata \<Rightarrow>
          if \<not> truthy metadata then Inr lookup
          else (case py_get metadata ''ss_output_name'' (JStr []) of
                  Inl e \<Rightarrow> Inl e
                | Inr ss_output \<Rightarrow>
                    if \<not> truthy ss_output then Inr lookup
                    else if ss_output = JStr name then Inr lookup
                    else (case py_lower_method ss_output of
                            Inl e \<Rightarrow> Inl e
                          | Inr low \<Rightarrow>
                              if low = ''merged'' then Inr lookup
                              else (case hash_key ss_output of
                                      None \<Rightarrow> Inl TypeError
                                    | Some k \<Rightarrow> Inr (lookup(k \<mapsto> name))))))"

text \<open>\<^verbatim>\<open>except: pass\<close>: an item whose body raises leaves the lookup as it was.\<close>

definition registry_item :: "lookup \<Rightarrow> string \<times> lora_obj \<Rightarrow> lookup" where
  "registry_item lookup item =
     (case registry_try (fst item) (snd item) lookup of
        Inl e \<Rightarrow> lookup
      | Inr lookup' \<Rightarrow> lookup')"

text \<open>
  One round of the loop over the files. Nothing here is inside a \<^verbatim>\<open>try\<close>: what
  \<^verbatim>\<open>metadata.get\<close> or the store raises leaves the function.
\<close>

definition scan_file :: "string \<Rightarrow> file_read \<Rightarrow> lookup \<Rightarrow> error + lookup" where
  "scan_file stem f lookup =
     (let metadata = load_lora_metadata f in
      if truthy metadata then
        (case py_get metadata ''ss_output_name'' JNull of
           Inl e \<Rightarrow> Inl e
         | Inr output_name \<Rightarrow>
             if truthy output_name then
               (case hash_key output_name of
                  None \<Rightarrow> Inl TypeError
                | Some k \<Rightarrow> Inr (lookup(k \<mapsto> stem)))
             else Inr lookup)
      else Inr lookup)"

fun scan_files :: "(string \<times> file_read) list \<Rightarrow> lookup \<Rightarrow> error + lookup" where
  "scan_files [] lookup = Inr lookup"
| "scan_files ((stem, f) # files) lookup =
     (case scan_file stem f lookup of
        Inl e \<Rightarrow> Inl e
      | Inr lookup' \<Rightarrow> scan_files files lookup')"

definition build_output_name_lookup :: "host_env \<Rightarrow> error + lookup" where
  "build_output_name_lookup env =
     (case available_loras env of
        Some items \<Rightarrow> Inr (foldl registry_item Map.empty items)
      | None \<Rightarrow>
          (case get_lora_directory env of
             None \<Rightarrow> Inr Map.empty
           | Some lora_dir \<Rightarrow>
               (case safetensors_under env lora_dir of
                  None \<Rightarrow> Inr Map.empty
                | Some files \<Rightarrow> scan_files files Map.empty)))"

subsection \<open>extract\_loras\_from\_prompt\<close>

text \<open>
  The \<^verbatim>\<open>prompt\<close> argument: \<^verbatim>\<open>None\<close>, a string, or an object of another type with the
  truth value \<^verbatim>\<open>not prompt\<close> finds.
\<close>

datatype prompt_arg = PNone | PStr string | POther bool

text \<open>One round of the loop over the parsed references, on the two lists it appends to.\<close>

definition loop_body ::
  "'w float_ops \<Rightarrow> string list \<Rightarrow> lookup \<Rightarrow> string list \<times> string list
     \<Rightarrow> string \<times> 'w \<times> string option \<Rightarrow> string list \<times> string list" where
  "loop_body F selectable_loras output_name_lookup acc ref =
     (case acc of (checked_loras, formatted_parts) \<Rightarrow>
      case ref of (name, weight, lbw) \<Rightarrow>
        let formatted_parts' =
              (case lbw of
                 Some l \<Rightarrow>
                   if l \<noteq> []
                   then formatted_parts @ [name @ '':'' @ str_of_float F weight @ '':'' @ l]
                   else formatted_parts @ [name @ '':'' @ str_of_float F weight]
               | None \<Rightarrow> formatted_parts @ [name @ '':'' @ str_of_float F weight])
        in if name \<in> set selectable_loras then (checked_loras @ [name], formatted_parts')
           else (case output_name_lookup (KStr name) of
                   Some actual_filename \<Rightarrow>
                     if actual_filename \<in> set selectable_loras
                     then (checked_loras @ [actual_filename], formatted_parts')
                     else (checked_loras, formatted_parts')
                 | None \<Rightarrow> (checked_loras, formatted_parts')))"

definition extract_loras_from_prompt ::
  "'w float_ops \<Rightarrow> host_env \<Rightarrow> prompt_arg \<Rightarrow> string list option
     \<Rightarrow> error + (string list \<times> string)" where
  "extract_loras_from_prompt F env prompt selectable =
     (case prompt of
        PNone \<Rightarrow> Inr ([], [])
      | POther b \<Rightarrow> Inr ([], [])
      | PStr s \<Rightarrow>
          if s = [] then Inr ([], [])
          else
            let selectable_loras = (case selectable of None \<Rightarrow> [] | Some l \<Rightarrow> l);
                parsed = parse_lora_syntax F s
            in (case build_output_name_lookup env of
                  Inl e \<Rightarrow> Inl e
                | Inr output_name_lookup \<Rightarrow>
                    (case foldl (loop_body F selectable_loras output_name_lookup) ([], []) parsed of
                       (checked_loras, formatted_parts) \<Rightarrow>
                         Inr (checked_loras, join_comma formatted_parts))))"

subsection \<open>The loop as two maps\<close>

text \<open>What one parsed reference adds to \<^verbatim>\<open>formatted_parts\<close> and to \<^verbatim>\<open>checked_loras\<close>.\<close>

definition formatted_part :: "'w float_ops \<Rightarrow> string \<times> 'w \<times> string option \<Rightarrow> string" where
  "formatted_part F ref =
     (case ref of (name, weight, lbw) \<Rightarrow>
        (case lbw of
           Some l \<Rightarrow> if l \<noteq> [] then name @ '':'' @ str_of_float F weight @ '':'' @ l
                     else name @ '':'' @ str_of_float F weight
         | None \<Rightarrow> name @ '':'' @ str_of_float F weight))"

definition checked_names :: "string list \<Rightarrow> lookup \<Rightarrow> string \<times> 'w \<times> string option \<Rightarrow> string list" where
  "checked_names selectable_loras output_name_lookup ref =
     (case ref of (name, weight, lbw) \<Rightarrow>
        if name \<in> set selectable_loras then [name]
        else (case output_name_lookup (KStr name) of
                Some actual_filename \<Rightarrow>
                  if actual_filename \<in> set selectable_loras then [actual_filename] else []
              | None \<Rightarrow> []))"

subsection \<open>The specification's vocabulary\<close>

text \<open>
  The text of a reference with the given fields: \<^verbatim>\<open><lora:\<close>, the fields separated by
  colons, \<^verbatim>\<open>>\<close>.
\<close>

definition ref_text :: "string \<Rightarrow> string \<Rightarrow> string option \<Rightarrow> string" where
  "ref_text g1 g2 g3 =
     ''<lora:'' @ g1 @ '':'' @ g2 @ (case g3 of None \<Rightarrow> [] | Some l \<Rightarrow> '':'' @ l) @ ''>''"

text \<open>
  The fields the specification's grammar allows: name and weight without \<^verbatim>\<open>:\<close> and
  \<^verbatim>\<open>>\<close>, the optional third field without \<^verbatim>\<open>>\<close>.
\<close>

definition grammar_fields :: "string \<Rightarrow> string \<Rightarrow> string option \<Rightarrow> bool" where
  "grammar_fields g1 g2 g3 \<longleftrightarrow>
     list_all name_char g1 \<and> list_all name_char g2 \<and>
     (case g3 of None \<Rightarrow> True | Some l \<Rightarrow> list_all lbw_char l)"

text \<open>The fields the pattern accepts: those of the grammar, each non-empty.\<close>

definition valid_fields :: "string \<Rightarrow> string \<Rightarrow> string option \<Rightarrow> bool" where
  "valid_fields g1 g2 g3 \<longleftrightarrow>
     grammar_fields g1 g2 g3 \<and> g1 \<noteq> [] \<and> g2 \<noteq> [] \<and> g3 \<noteq> Some []"

text \<open>
  The matching policy in the specification's words: the name when it is selectable;
  otherwise, when the name is a key of the index and the identifier it maps to is
  selectable, that identifier; otherwise nothing.
\<close>

definition first_match :: "string list \<Rightarrow> lookup \<Rightarrow> string \<Rightarrow> string list" where
  "first_match selectable index name =
     (if name \<in> set selectable then [name]
      else if KStr name \<in> dom index \<and> the (index (KStr name)) \<in> set selectable
           then [the (index (KStr name))]
      else [])"

text \<open>A match of the scan of \<open>s\<close> from \<open>pos\<close>: it lies in the scanned text and spells a
  reference with its groups.\<close>

definition span_ok :: "nat \<Rightarrow> string \<Rightarrow> re_match \<Rightarrow> bool" where
  "span_ok pos s m \<longleftrightarrow>
     pos \<le> m_start m \<and> m_start m < m_end m \<and> m_end m \<le> pos + length s \<and>
     valid_fields (group1 m) (group2 m) (group3 m) \<and>
     take (m_end m - m_start m) (drop (m_start m - pos) s)
       = ref_text (group1 m) (group2 m) (group3 m)"

subsection \<open>Sample inputs\<close>

text \<open>
  An instance of the float interface, used for sample inputs only. It covers a fragment
  on which Python's floats behave as decimals: an optional sign and a literal with a
  decimal point or without (\<^verbatim>\<open>1\<close>, \<^verbatim>\<open>0.8\<close>, \<^verbatim>\<open>.5\<close>, \<^verbatim>\<open>-0.5\<close>) of at most fifteen
  significant digits, zero or of magnitude at least \<^verbatim>\<open>0.0001\<close>. On these \<^verbatim>\<open>float\<close> is
  exact enough for \<^verbatim>\<open>str\<close> to print the literal back in positional notation, without
  leading and trailing zeros. A weight is its sign and digits before the point, and its
  digits after the point. \<open>None\<close> stands for \<^verbatim>\<open>ValueError\<close> on the strings that are no number
  in Python's grammar; on the numbers outside the fragment (exponents, underscores,
  \<^verbatim>\<open>inf\<close>, \<^verbatim>\<open>nan\<close>, longer or smaller literals), which Python reads, the instance
  returns \<open>None\<close> too and does not stand for Python. No statement below is about such a
  string.
\<close>

text \<open>The whitespace \<^verbatim>\<open>float\<close> strips from a string, for the code points below 256.\<close>

definition float_space :: "char \<Rightarrow> bool" where
  "float_space c \<longleftrightarrow>
     c \<in> set [CHR 0x09, CHR 0x0A, CHR 0x0B, CHR 0x0C, CHR 0x0D, CHR 0x20, CHR 0x85, CHR 0xA0]"

definition is_digit :: "char \<Rightarrow> bool" where
  "is_digit c \<longleftrightarrow> c \<in> set ''0123456789''"

definition is_zero :: "char \<Rightarrow> bool" where
  "is_zero c \<longleftrightarrow> c = CHR ''0''"

definition decimal_of_str :: "string \<Rightarrow> (string \<times> string) option" where
  "decimal_of_str s =
     (let t = rev (dropWhile float_space (rev (dropWhile float_space s)));
          signed = (t \<noteq> [] \<and> (hd t = CHR ''-'' \<or> hd t = CHR ''+''));
          minus = (if t \<noteq> [] \<and> hd t = CHR ''-'' then ''-'' else []);
          u = (if signed then tl t else t);
          ip = takeWhile is_digit u; r = dropWhile is_digit u;
          fp = (if r = [] then [] else tl r);
          ip' = dropWhile is_zero ip;
          fp' = rev (dropWhile is_zero (rev fp));
          significant = (if ip' = [] then length (dropWhile is_zero fp')
                         else length ip' + length fp')
      in if ip = [] \<and> fp = [] then None
         else if r \<noteq> [] \<and> (hd r \<noteq> CHR ''.'' \<or> \<not> list_all is_digit fp) then None
         else if 15 < significant \<or> (ip' = [] \<and> 3 < length (takeWhile is_zero fp')) then None
         else Some (minus @ (if ip' = [] then ''0'' else ip'), fp'))"

definition str_of_decimal :: "string \<times> string \<Rightarrow> string" where
  "str_of_decimal d = fst d @ ''.'' @ (if snd d = [] then ''0'' else snd d)"

definition decimal_ops :: "(string \<times> string) float_ops" where
  "decimal_ops =
     \<lparr>float_of_str = decimal_of_str, str_of_float = str_of_decimal, float_one = (''1'', [])\<rparr>"

text \<open>
  A host with the registry loaded: \<^verbatim>\<open>file123\<close> was trained as \<^verbatim>\<open>TrainedName\<close>, and
  \<^verbatim>\<open>other\<close> carries no output name.
\<close>

definition registry_env :: host_env where
  "registry_env =
     \<lparr>available_loras =
        Some [(''file123'', HasMetadata (JObj [(''ss_output_name'', JStr ''TrainedName'')])),
              (''other'', HasMetadata (JObj [(''ss_network_dim'', JStr ''32'')]))],
      has_webui = True, cmd_lora_dir = None, data_path = ''/sd'',
      safetensors_under = (\<lambda>d. None)\<rparr>"

text \<open>A host without the registry and without the web UI: nothing to index.\<close>

definition bare_env :: host_env where
  "bare_env =
     \<lparr>available_loras = None, has_webui = False, cmd_lora_dir = None, data_path = [],
      safetensors_under = (\<lambda>d. None)\<rparr>"

text \<open>
  A host without the registry whose LoRA directory holds the given files.
\<close>

definition files_env :: "(string \<times> file_read) list \<Rightarrow> host_env" where
  "files_env files =
     \<lparr>available_loras = None, has_webui = True, cmd_lora_dir = None, data_path = ''/sd'',
      safetensors_under =
        (\<lambda>d. if d = Join (Join (Path ''/sd'') ''models'') ''Lora'' then Some files else None)\<rparr>"

text \<open>The header \<^verbatim>\<open>{"__metadata__": {"ss_output_name": name}}\<close>.\<close>

definition header_named :: "string \<Rightarrow> file_read" where
  "header_named name = Header (JObj [(''__metadata__'', JObj [(''ss_output_name'', JStr name)])])"

section \<open>Properties\<close>

subsection \<open>One match attempt against the grammar\<close>

text \<open>
  A match attempt succeeds exactly on the texts that begin with a reference with valid
  fields, and it returns those fields: the deterministic reading of the pattern in
  \<open>match_here\<close> agrees with the pattern's language, and since the fields are determined
  by the text the order in which a backtracking engine tries alternatives cannot matter.
\<close>

lemma run_split:
  assumes "takeWhile P xs = g" "dropWhile P xs = r"
  shows "xs = g @ r" "list_all P g"
  using assms takeWhile_dropWhile_id[of P xs] by (auto simp: list_all_iff dest: set_takeWhileD)

lemma run_stop:
  assumes "dropWhile P xs = r" "r \<noteq> []"
  shows "\<not> P (hd r)"
  using assms hd_dropWhile[of P xs] by auto

lemma run_take: "list_all P g \<Longrightarrow> \<not> P c \<Longrightarrow> takeWhile P (g @ c # r) = g"
  by (induction g) auto

lemma run_drop: "list_all P g \<Longrightarrow> \<not> P c \<Longrightarrow> dropWhile P (g @ c # r) = c # r"
  by (induction g) auto

lemma name_run:
  assumes "list_all name_char g"
  shows "takeWhile name_char (g @ CHR '':'' # r) = g" "dropWhile name_char (g @ CHR '':'' # r) = CHR '':'' # r"
    "takeWhile name_char (g @ CHR ''>'' # r) = g" "dropWhile name_char (g @ CHR ''>'' # r) = CHR ''>'' # r"
  using assms by (simp_all add: run_take run_drop name_char_def)

lemma lbw_run:
  assumes "list_all lbw_char g"
  shows "takeWhile lbw_char (g @ CHR ''>'' # r) = g" "dropWhile lbw_char (g @ CHR ''>'' # r) = CHR ''>'' # r"
  using assms by (simp_all add: run_take run_drop lbw_char_def)

lemma match_here_sound:
  assumes "match_here s = Some (g1, g2, g3, rest)"
  shows "valid_fields g1 g2 g3 \<and> s = ref_text g1 g2 g3 @ rest"
proof -
  define r1 where "r1 = drop 6 s"
  define r2 where "r2 = dropWhile name_char r1"
  define r3 where "r3 = tl r2"
  define r4 where "r4 = dropWhile name_char r3"
  define r5 where "r5 = tl r4"
  define r6 where "r6 = dropWhile lbw_char r5"
  note defs = r1_def r2_def r3_def r4_def r5_def r6_def
  from assms have pre: "take 6 s = ''<lora:''"
    unfolding match_here_def by (auto split: if_splits)
  then have s: "s = ''<lora:'' @ r1"
    unfolding r1_def using append_take_drop_id[of 6 s] by simp
  from assms pre have a1: "takeWhile name_char r1 \<noteq> []" "r2 \<noteq> []" "hd r2 = CHR '':''"
    unfolding match_here_def Let_def defs by (auto split: if_splits)
  from assms pre a1 have g1: "g1 = takeWhile name_char r1"
    unfolding match_here_def Let_def defs by (auto split: if_splits)
  from a1 have r2: "r2 = CHR '':'' # r3" unfolding r3_def by (cases r2) auto
  have r1: "r1 = g1 @ r2" "list_all name_char g1"
    using run_split[OF g1[symmetric] r2_def[symmetric]] by auto
  from assms pre a1 have a2: "takeWhile name_char r3 \<noteq> []" "r4 \<noteq> []"
    unfolding match_here_def Let_def defs by (auto split: if_splits)
  from assms pre a1 a2 have g2: "g2 = takeWhile name_char r3"
    unfolding match_here_def Let_def defs by (auto split: if_splits)
  have r3: "r3 = g2 @ r4" "list_all name_char g2"
    using run_split[OF g2[symmetric] r4_def[symmetric]] by auto
  have stop4: "\<not> name_char (hd r4)" using run_stop[OF r4_def[symmetric] a2(2)] .
  show ?thesis
  proof (cases "hd r4 = CHR ''>''")
    case True
    with assms pre a1 a2 have res: "g3 = None" "rest = tl r4"
      unfolding match_here_def Let_def defs by (auto split: if_splits)
    from True a2 have r4: "r4 = CHR ''>'' # rest" unfolding res by (cases r4) auto
    have ne: "g1 \<noteq> []" "g2 \<noteq> []" using a1 a2 g1 g2 by auto
    have "s = ''<lora:'' @ g1 @ CHR '':'' # g2 @ CHR ''>'' # rest"
      by (subst s, subst r1(1), subst r2, subst r3(1), subst r4) simp
    then show ?thesis
      using ne r1(2) r3(2) res(1) by (simp add: valid_fields_def grammar_fields_def ref_text_def)
  next
    case False
    with stop4 have c4: "hd r4 = CHR '':''" by (auto simp: name_char_def)
    with a2 have r4: "r4 = CHR '':'' # r5" unfolding r5_def by (cases r4) auto
    from False assms pre a1 a2 have a3: "takeWhile lbw_char r5 \<noteq> []" "r6 \<noteq> []"
      unfolding match_here_def Let_def defs by (auto split: if_splits)
    from False assms pre a1 a2 a3 have res: "g3 = Some (takeWhile lbw_char r5)" "rest = tl r6"
      unfolding match_here_def Let_def defs by (auto split: if_splits)
    define l where "l = takeWhile lbw_char r5"
    have r5: "r5 = l @ r6" "list_all lbw_char l"
      using run_split[OF l_def[symmetric] r6_def[symmetric]] by auto
    have "\<not> lbw_char (hd r6)" using run_stop[OF r6_def[symmetric] a3(2)] .
    then have "hd r6 = CHR ''>''" by (simp add: lbw_char_def)
    with a3 have r6: "r6 = CHR ''>'' # rest" unfolding res by (cases r6) auto
    have ne: "g1 \<noteq> []" "g2 \<noteq> []" "l \<noteq> []" using a1 a2 a3 g1 g2 l_def by auto
    have "s = ''<lora:'' @ g1 @ CHR '':'' # g2 @ CHR '':'' # l @ CHR ''>'' # rest"
      by (subst s, subst r1(1), subst r2, subst r3(1), subst r4, subst r5(1), subst r6) simp
    moreover have "g3 = Some l" using res l_def by simp
    ultimately show ?thesis
      using ne r1(2) r3(2) r5(2) by (simp add: valid_fields_def grammar_fields_def ref_text_def)
  qed
qed

lemma match_here_two:
  assumes "g1 \<noteq> []" "list_all name_char g1" "g2 \<noteq> []" "list_all name_char g2"
  shows "match_here (''<lora:'' @ g1 @ CHR '':'' # g2 @ CHR ''>'' # rest) = Some (g1, g2, None, rest)"
proof -
  let ?s = "''<lora:'' @ g1 @ CHR '':'' # g2 @ CHR ''>'' # rest"
  have t: "take 6 ?s = ''<lora:''" by simp
  have d: "drop 6 ?s = g1 @ CHR '':'' # (g2 @ CHR ''>'' # rest)" by simp
  show ?thesis
    unfolding match_here_def t d Let_def name_run(1,2)[OF assms(2)] list.sel
      name_run(3,4)[OF assms(4)]
    using assms(1,3) by simp
qed

lemma match_here_three:
  assumes "g1 \<noteq> []" "list_all name_char g1" "g2 \<noteq> []" "list_all name_char g2"
    "l \<noteq> []" "list_all lbw_char l"
  shows "match_here (''<lora:'' @ g1 @ CHR '':'' # g2 @ CHR '':'' # l @ CHR ''>'' # rest)
           = Some (g1, g2, Some l, rest)"
proof -
  let ?s = "''<lora:'' @ g1 @ CHR '':'' # g2 @ CHR '':'' # l @ CHR ''>'' # rest"
  have t: "take 6 ?s = ''<lora:''" by simp
  have d: "drop 6 ?s = g1 @ CHR '':'' # (g2 @ CHR '':'' # (l @ CHR ''>'' # rest))" by simp
  show ?thesis
    unfolding match_here_def t d Let_def name_run(1,2)[OF assms(2)] list.sel
      name_run(1,2)[OF assms(4)] lbw_run[OF assms(6)]
    using assms(1,3,5) by simp
qed

lemma match_here_complete:
  assumes "valid_fields g1 g2 g3"
  shows "match_here (ref_text g1 g2 g3 @ rest) = Some (g1, g2, g3, rest)"
proof (cases g3)
  case None
  with assms have v: "g1 \<noteq> []" "list_all name_char g1" "g2 \<noteq> []" "list_all name_char g2"
    by (auto simp: valid_fields_def grammar_fields_def)
  show ?thesis
    using match_here_two[OF v, of rest] None by (simp add: ref_text_def)
next
  case (Some l)
  with assms have v: "g1 \<noteq> []" "list_all name_char g1" "g2 \<noteq> []" "list_all name_char g2"
     "l \<noteq> []" "list_all lbw_char l"
    by (auto simp: valid_fields_def grammar_fields_def)
  show ?thesis
    using match_here_three[OF v, of rest] Some by (simp add: ref_text_def)
qed

lemma match_here_iff:
  "match_here s = Some (g1, g2, g3, rest) \<longleftrightarrow> valid_fields g1 g2 g3 \<and> s = ref_text g1 g2 g3 @ rest"
  using match_here_sound match_here_complete by blast

lemma match_here_None_iff:
  "match_here s = None \<longleftrightarrow> (\<forall>g1 g2 g3 rest. valid_fields g1 g2 g3 \<longrightarrow> s \<noteq> ref_text g1 g2 g3 @ rest)"
proof
  assume n: "match_here s = None"
  show "\<forall>g1 g2 g3 rest. valid_fields g1 g2 g3 \<longrightarrow> s \<noteq> ref_text g1 g2 g3 @ rest"
  proof (intro allI impI notI)
    fix g1 g2 g3 rest
    assume "valid_fields g1 g2 g3" "s = ref_text g1 g2 g3 @ rest"
    then have "match_here s = Some (g1, g2, g3, rest)" using match_here_complete by simp
    with n show False by simp
  qed
next
  assume a: "\<forall>g1 g2 g3 rest. valid_fields g1 g2 g3 \<longrightarrow> s \<noteq> ref_text g1 g2 g3 @ rest"
  show "match_here s = None"
  proof (cases "match_here s")
    case None then show ?thesis .
  next
    case (Some r)
    obtain g1 g2 g3 rest where "r = (g1, g2, g3, rest)" by (cases r) auto
    with Some match_here_sound[of s g1 g2 g3 rest] a show ?thesis by blast
  qed
qed

lemma ref_text_length: "length (ref_text g1 g2 g3) > 0"
  by (simp add: ref_text_def)

subsection \<open>The scan\<close>

lemma match_here_Nil: "match_here [] = None"
  by (simp add: match_here_def)

lemma ref_text_unique:
  assumes "valid_fields g1 g2 g3" "valid_fields h1 h2 h3"
    "ref_text g1 g2 g3 @ r = ref_text h1 h2 h3 @ r'"
  shows "g1 = h1 \<and> g2 = h2 \<and> g3 = h3 \<and> r = r'"
proof -
  have a: "match_here (ref_text g1 g2 g3 @ r) = Some (g1, g2, g3, r)"
    by (rule match_here_complete[OF assms(1)])
  have b: "match_here (ref_text g1 g2 g3 @ r) = Some (h1, h2, h3, r')"
    unfolding assms(3) by (rule match_here_complete[OF assms(2)])
  from a b show ?thesis by simp
qed

lemma ref_text_ne: "ref_text g1 g2 g3 \<noteq> []"
  by (simp add: ref_text_def)

lemma finditer_from_Nil: "finditer_from pos [] = []"
  by (subst finditer_from.simps) simp

lemma finditer_from_skip:
  "match_here (c # cs) = None \<Longrightarrow> finditer_from pos (c # cs) = finditer_from (Suc pos) cs"
  by (subst finditer_from.simps) simp

lemma finditer_from_hit:
  assumes "valid_fields g1 g2 g3"
  shows "finditer_from pos (ref_text g1 g2 g3 @ rest) =
           \<lparr>m_start = pos, m_end = pos + length (ref_text g1 g2 g3),
            group1 = g1, group2 = g2, group3 = g3\<rparr>
           # finditer_from (pos + length (ref_text g1 g2 g3)) rest"
  by (subst finditer_from.simps) (simp add: ref_text_ne match_here_complete[OF assms])

lemma finditer_from_induct [case_names Nil Skip Hit]:
  assumes nil: "\<And>pos. P pos []"
    and skip: "\<And>pos c cs. match_here (c # cs) = None \<Longrightarrow> P (Suc pos) cs \<Longrightarrow> P pos (c # cs)"
    and hit: "\<And>pos g1 g2 g3 rest. valid_fields g1 g2 g3 \<Longrightarrow>
                P (pos + length (ref_text g1 g2 g3)) rest \<Longrightarrow> P pos (ref_text g1 g2 g3 @ rest)"
  shows "P pos s"
proof (induction "length s" arbitrary: s pos rule: less_induct)
  case less
  show ?case
  proof (cases s)
    case Nil
    then show ?thesis using nil by simp
  next
    case (Cons c cs)
    show ?thesis
    proof (cases "match_here s")
      case None
      have "P (Suc pos) cs" using less[of cs "Suc pos"] Cons by simp
      then show ?thesis using skip[of c cs pos] None Cons by simp
    next
      case (Some r)
      obtain g1 g2 g3 rest where r: "r = (g1, g2, g3, rest)" by (cases r) auto
      from match_here_sound[of s g1 g2 g3 rest] Some r
      have v: "valid_fields g1 g2 g3" and s: "s = ref_text g1 g2 g3 @ rest" by auto
      have "length rest < length s" using s ref_text_length[of g1 g2 g3] by simp
      then have "P (pos + length (ref_text g1 g2 g3)) rest" using less by simp
      then show ?thesis using hit[OF v] s by simp
    qed
  qed
qed

lemma finditer_from_spans:
  "m \<in> set (finditer_from pos s) \<Longrightarrow> span_ok pos s m"
proof (induction pos s rule: finditer_from_induct)
  case (Nil pos)
  then show ?case by (simp add: finditer_from_Nil)
next
  case (Skip pos c cs)
  then have ok: "span_ok (Suc pos) cs m" by (simp add: finditer_from_skip)
  then have "m_start m - pos = Suc (m_start m - Suc pos)" by (auto simp: span_ok_def)
  with ok show ?case by (auto simp: span_ok_def)
next
  case (Hit pos g1 g2 g3 rest)
  let ?n = "length (ref_text g1 g2 g3)"
  from Hit.prems consider
    (head) "m = \<lparr>m_start = pos, m_end = pos + ?n, group1 = g1, group2 = g2, group3 = g3\<rparr>"
    | (tail) "m \<in> set (finditer_from (pos + ?n) rest)"
    by (auto simp: finditer_from_hit[OF Hit.hyps])
  then show ?case
  proof cases
    case head
    then show ?thesis using Hit.hyps ref_text_length[of g1 g2 g3] by (simp add: span_ok_def)
  next
    case tail
    then have ok: "span_ok (pos + ?n) rest m" using Hit.IH by simp
    then have "m_start m - pos = ?n + (m_start m - (pos + ?n))" by (auto simp: span_ok_def)
    then have "drop (m_start m - pos) (ref_text g1 g2 g3 @ rest) = drop (m_start m - (pos + ?n)) rest"
      by simp
    with ok show ?thesis by (auto simp: span_ok_def)
  qed
qed

lemma finditer_from_sorted:
  "sorted_wrt (\<lambda>a b. m_end a \<le> m_start b) (finditer_from pos s)"
proof (induction pos s rule: finditer_from_induct)
  case (Nil pos)
  then show ?case by (simp add: finditer_from_Nil)
next
  case (Skip pos c cs)
  then show ?case by (simp add: finditer_from_skip)
next
  case (Hit pos g1 g2 g3 rest)
  have "\<forall>m \<in> set (finditer_from (pos + length (ref_text g1 g2 g3)) rest).
          pos + length (ref_text g1 g2 g3) \<le> m_start m"
    using finditer_from_spans by (auto simp: span_ok_def)
  with Hit show ?case by (simp add: finditer_from_hit)
qed

lemma finditer_from_gaps:
  "i < length s \<Longrightarrow>
   \<forall>m \<in> set (finditer_from pos s). pos + i < m_start m \<or> m_end m \<le> pos + i \<Longrightarrow>
   match_here (drop i s) = None"
proof (induction pos s arbitrary: i rule: finditer_from_induct)
  case (Nil pos)
  then show ?case by simp
next
  case (Skip pos c cs)
  show ?case
  proof (cases i)
    case 0
    then show ?thesis using Skip.hyps by simp
  next
    case (Suc j)
    then have "j < length cs" using Skip.prems by simp
    moreover have "\<forall>m \<in> set (finditer_from (Suc pos) cs). Suc pos + j < m_start m \<or> m_end m \<le> Suc pos + j"
      using Skip.prems(2) Suc by (simp add: finditer_from_skip[OF Skip.hyps])
    ultimately show ?thesis using Skip.IH Suc by simp
  qed
next
  case (Hit pos g1 g2 g3 rest)
  let ?n = "length (ref_text g1 g2 g3)"
  from Hit.prems(2) have all:
    "?n \<le> i" "\<forall>m \<in> set (finditer_from (pos + ?n) rest). pos + i < m_start m \<or> m_end m \<le> pos + i"
    by (auto simp: finditer_from_hit[OF Hit.hyps])
  then have "i - ?n < length rest" using Hit.prems(1) by simp
  moreover have "\<forall>m \<in> set (finditer_from (pos + ?n) rest).
                   pos + ?n + (i - ?n) < m_start m \<or> m_end m \<le> pos + ?n + (i - ?n)"
    using all by simp
  ultimately have "match_here (drop (i - ?n) rest) = None" using Hit.IH by blast
  then show ?case using all(1) by simp
qed

subsection \<open>The resolver as two maps over the parsed references\<close>

lemma loop_body_step:
  "loop_body F sel lk (c, p) ref = (c @ checked_names sel lk ref, p @ [formatted_part F ref])"
  by (cases ref) (auto simp: loop_body_def checked_names_def formatted_part_def Let_def
      split: option.splits)

lemma loop_fold:
  "foldl (loop_body F sel lk) (c, p) refs =
     (c @ concat (map (checked_names sel lk) refs), p @ map (formatted_part F) refs)"
  by (induction refs arbitrary: c p) (simp_all add: loop_body_step)

lemma checked_names_first_match:
  "checked_names sel lk = (\<lambda>ref. first_match sel lk (fst ref))"
  by (rule ext) (auto simp: checked_names_def first_match_def dom_def split: option.splits prod.splits)

lemma extract_str:
  assumes "build_output_name_lookup env = Inr lk" "s \<noteq> []"
  shows "extract_loras_from_prompt F env (PStr s) (Some sel) =
           Inr (concat (map (\<lambda>ref. first_match sel lk (fst ref)) (parse_lora_syntax F s)),
                join_comma (map (formatted_part F) (parse_lora_syntax F s)))"
  using assms
  by (simp add: extract_loras_from_prompt_def loop_fold checked_names_first_match Let_def)

lemma extract_str_None:
  assumes "build_output_name_lookup env = Inr lk" "s \<noteq> []"
  shows "extract_loras_from_prompt F env (PStr s) None =
           Inr (concat (map (\<lambda>ref. first_match [] lk (fst ref)) (parse_lora_syntax F s)),
                join_comma (map (formatted_part F) (parse_lora_syntax F s)))"
  using assms
  by (simp add: extract_loras_from_prompt_def loop_fold checked_names_first_match Let_def)

lemma finditer_single:
  assumes "valid_fields g1 g2 g3"
  shows "finditer (ref_text g1 g2 g3) =
           [\<lparr>m_start = 0, m_end = length (ref_text g1 g2 g3),
             group1 = g1, group2 = g2, group3 = g3\<rparr>]"
  using finditer_from_hit[OF assms, of 0 "[]"] by (simp add: finditer_def finditer_from_Nil)

lemma parse_single:
  assumes "valid_fields g1 g2 g3"
  shows "parse_lora_syntax F (ref_text g1 g2 g3) =
           [(py_strip g1, read_weight F g2, map_option py_strip g3)]"
  unfolding parse_lora_syntax_def finditer_single[OF assms]
  by (cases g3) (simp_all add: parse_match_def)

lemma formatted_part_name:
  "take (Suc (length (fst ref))) (formatted_part F ref) = fst ref @ '':''"
  by (cases ref) (auto simp: formatted_part_def split: option.splits)

lemma py_strip_plain [simp]:
  "py_strip ''TrainedName'' = ''TrainedName''" "py_strip ''A'' = ''A''" "py_strip ''B'' = ''B''"
  by (simp_all add: py_strip_def py_isspace_def)

subsection \<open>The sample inputs evaluated\<close>

lemma registry_env_index:
  "build_output_name_lookup registry_env = Inr [KStr ''TrainedName'' \<mapsto> ''file123'']"
  by (simp add: build_output_name_lookup_def registry_env_def registry_item_def registry_try_def
      py_lower_def py_lower_char_def)

lemma decimal_one:
  "float_of_str decimal_ops ''1'' = Some (''1'', [])"
  "str_of_float decimal_ops (''1'', []) = ''1.0''"
  "float_one decimal_ops = (''1'', [])"
  "float_of_str decimal_ops ''oops'' = None"
  by (simp_all add: decimal_ops_def decimal_of_str_def str_of_decimal_def float_space_def
      is_digit_def is_zero_def Let_def)

lemma parse_hit:
  assumes "valid_fields g1 g2 g3"
  shows "map (parse_match F) (finditer_from pos (ref_text g1 g2 g3 @ rest)) =
           (py_strip g1, read_weight F g2, map_option py_strip g3)
           # map (parse_match F) (finditer_from (pos + length (ref_text g1 g2 g3)) rest)"
  unfolding finditer_from_hit[OF assms]
  by (cases g3) (simp_all add: parse_match_def)

lemma parse_hit_last:
  assumes "valid_fields g1 g2 g3"
  shows "map (parse_match F) (finditer_from pos (ref_text g1 g2 g3)) =
           [(py_strip g1, read_weight F g2, map_option py_strip g3)]"
  using parse_hit[OF assms, of F pos "[]"] by (simp add: finditer_from_Nil)

lemma py_strip_spaces:
  assumes "list_all py_isspace g"
  shows "py_strip g = []"
proof -
  have d: "dropWhile py_isspace g = []"
    using assms by (induction g) auto
  show ?thesis unfolding py_strip_def d by simp
qed

lemma extract_opt:
  assumes "build_output_name_lookup env = Inr lk" "s \<noteq> []"
  shows "extract_loras_from_prompt F env (PStr s) sel =
           Inr (concat (map (\<lambda>ref. first_match (case sel of None \<Rightarrow> [] | Some l \<Rightarrow> l) lk (fst ref))
                          (parse_lora_syntax F s)),
                join_comma (map (formatted_part F) (parse_lora_syntax F s)))"
  using extract_str[OF assms] extract_str_None[OF assms] by (cases sel) simp_all

lemma bare_env_index: "build_output_name_lookup bare_env = Inr Map.empty"
  by (simp add: build_output_name_lookup_def bare_env_def get_lora_directory_def)


lemma formatted_part_spaces:
  assumes "group3 m = Some g" "list_all py_isspace g"
  shows "formatted_part F (parse_match F m) =
           py_strip (group1 m) @ '':'' @ str_of_float F (read_weight F (group2 m))"
  using assms by (simp add: formatted_part_def parse_match_def py_strip_spaces)

lemma valid_fields_two: "valid_fields g1 g2 g3 \<Longrightarrow> valid_fields g1 g2 None"
  by (simp add: valid_fields_def grammar_fields_def)

lemma finditer_from_Cons:
  "finditer_from pos (c # cs) =
     (case match_here (c # cs) of
        None \<Rightarrow> finditer_from (Suc pos) cs
      | Some (g1, g2, g3, rest) \<Rightarrow>
          \<lparr>m_start = pos, m_end = pos + (Suc (length cs) - length rest),
           group1 = g1, group2 = g2, group3 = g3\<rparr>
          # finditer_from (pos + (Suc (length cs) - length rest)) rest)"
  by (subst finditer_from.simps) (simp split: option.splits)

lemma finditer_covers:
  assumes "i < length prompt" "valid_fields g1 g2 g3" "drop i prompt = ref_text g1 g2 g3 @ rest"
  shows "\<exists>m \<in> set (finditer prompt). m_start m \<le> i \<and> i < m_end m \<and>
           (m_start m = i \<longrightarrow> group1 m = g1 \<and> group2 m = g2 \<and> group3 m = g3)"
proof -
  have some: "match_here (drop i prompt) = Some (g1, g2, g3, rest)"
    unfolding assms(3) by (rule match_here_complete[OF assms(2)])
  have "\<not> (\<forall>m \<in> set (finditer_from 0 prompt). 0 + i < m_start m \<or> m_end m \<le> 0 + i)"
  proof
    assume "\<forall>m \<in> set (finditer_from 0 prompt). 0 + i < m_start m \<or> m_end m \<le> 0 + i"
    from finditer_from_gaps[OF assms(1) this] some show False by simp
  qed
  then obtain m where m: "m \<in> set (finditer prompt)" "m_start m \<le> i" "i < m_end m"
    unfolding finditer_def by force
  have "group1 m = g1 \<and> group2 m = g2 \<and> group3 m = g3" if eq: "m_start m = i"
  proof -
    from m(1) have ok: "span_ok 0 prompt m"
      unfolding finditer_def by (rule finditer_from_spans)
    let ?n = "m_end m - m_start m"
    have tk: "take ?n (drop i prompt) = ref_text (group1 m) (group2 m) (group3 m)"
      and v: "valid_fields (group1 m) (group2 m) (group3 m)"
      using ok eq by (simp_all add: span_ok_def)
    have "ref_text (group1 m) (group2 m) (group3 m) @ drop ?n (drop i prompt) = drop i prompt"
      unfolding tk[symmetric] by (rule append_take_drop_id)
    then have "ref_text (group1 m) (group2 m) (group3 m) @ drop ?n (drop i prompt)
                 = ref_text g1 g2 g3 @ rest"
      unfolding assms(3) .
    from ref_text_unique[OF v assms(2) this] show ?thesis by simp
  qed
  with m show ?thesis by blast
qed

lemma py_strip_keeps:
  assumes "g \<noteq> []" "\<not> py_isspace (hd g)" "\<not> py_isspace (last g)"
  shows "py_strip g = g"
proof -
  have a: "dropWhile py_isspace g = g"
    using assms(1,2) by (cases g) simp_all
  have b: "dropWhile py_isspace (rev g) = rev g"
    using assms(1,3) by (cases "rev g") (simp_all add: last_rev[symmetric] hd_rev)
  show ?thesis unfolding py_strip_def a b by simp
qed

lemma formatted_part_lbw:
  assumes "group3 m = Some g" "py_strip g \<noteq> []"
  shows "formatted_part F (parse_match F m) =
           py_strip (group1 m) @ '':'' @ str_of_float F (read_weight F (group2 m))
             @ '':'' @ py_strip g"
  using assms by (simp add: formatted_part_def parse_match_def)

lemma registry_item_invariant:
  assumes inv: "\<forall>k v. lk k = Some v \<longrightarrow> (\<exists>s. k = KStr s \<and> s \<noteq> v \<and> py_lower s \<noteq> ''merged'')"
  shows "\<forall>k v. registry_item lk item k = Some v \<longrightarrow>
           (\<exists>s. k = KStr s \<and> s \<noteq> v \<and> py_lower s \<noteq> ''merged'')"
proof (cases "registry_try (fst item) (snd item) lk")
  case (Inl e)
  then show ?thesis using inv by (simp add: registry_item_def)
next
  case (Inr lk')
  from Inr have shape: "lk' = lk \<or>
      (\<exists>s. s \<noteq> fst item \<and> py_lower s \<noteq> ''merged'' \<and> lk' = lk(KStr s \<mapsto> fst item))"
  proof (cases "snd item")
    case NoMetadataAttr
    with Inr show ?thesis by (simp add: registry_try_def)
  next
    case (HasMetadata md)
    show ?thesis
    proof (cases "lk' = lk")
      case True
      then show ?thesis by simp
    next
      case False
      with Inr HasMetadata obtain ss where
        ss: "py_get md ''ss_output_name'' (JStr []) = Inr ss" "ss \<noteq> JStr (fst item)"
        by (auto simp: registry_try_def split: if_splits sum.splits option.splits)
      with False Inr HasMetadata obtain low where
        low: "py_lower_method ss = Inr low" "low \<noteq> ''merged''"
        by (auto simp: registry_try_def split: if_splits sum.splits option.splits)
      from low(1) obtain s where s: "ss = JStr s" "low = py_lower s"
        by (cases ss) auto
      from False Inr HasMetadata ss low s have "lk' = lk(KStr s \<mapsto> fst item)"
        by (auto simp: registry_try_def split: if_splits sum.splits option.splits)
      moreover have "s \<noteq> fst item" using ss(2) s(1) by simp
      moreover have "py_lower s \<noteq> ''merged''" using low(2) s(2) by simp
      ultimately show ?thesis by blast
    qed
  qed
  from shape show ?thesis
  proof
    assume "lk' = lk"
    then show ?thesis using inv Inr by (simp add: registry_item_def)
  next
    assume "\<exists>s. s \<noteq> fst item \<and> py_lower s \<noteq> ''merged'' \<and> lk' = lk(KStr s \<mapsto> fst item)"
    then obtain s where s: "s \<noteq> fst item" "py_lower s \<noteq> ''merged''"
      "lk' = lk(KStr s \<mapsto> fst item)" by blast
    have "registry_item lk item = lk(KStr s \<mapsto> fst item)"
      using Inr s(3) by (simp add: registry_item_def)
    then show ?thesis using inv s(1,2) by auto
  qed
qed

lemma registry_fold_invariant:
  assumes "\<forall>k v. lk k = Some v \<longrightarrow> (\<exists>s. k = KStr s \<and> s \<noteq> v \<and> py_lower s \<noteq> ''merged'')"
  shows "\<forall>k v. foldl registry_item lk items k = Some v \<longrightarrow>
           (\<exists>s. k = KStr s \<and> s \<noteq> v \<and> py_lower s \<noteq> ''merged'')"
  using assms
proof (induction items arbitrary: lk)
  case Nil
  then show ?case by simp
next
  case (Cons item items)
  show ?case
    unfolding foldl_Cons
    by (rule Cons.IH) (rule registry_item_invariant[OF Cons.prems])
qed

lemma scan_file_unreadable: "scan_file stem ReadFails lk = Inr lk"
  by (simp add: scan_file_def load_lora_metadata_def)


lemma scan_files_unreadable:
  "scan_files ((stem, ReadFails) # files) lk = scan_files files lk"
  by (simp add: scan_file_unreadable)

lemma finditer_hello: "finditer ''hello'' = []"
  by (simp add: finditer_def finditer_from_Cons finditer_from_Nil match_here_def)

subsection \<open>The index build, and prompts without references\<close>

text \<open>
  On the registry path the index never maps a name to itself and never has a key that
  lower-cases to \<^verbatim>\<open>merged\<close>, and the build never raises.
\<close>

lemma registry_index_invariant:
  assumes "available_loras env = Some items"
    and "build_output_name_lookup env = Inr lk" and "lk k = Some v"
  shows "\<exists>s. k = KStr s \<and> s \<noteq> v \<and> py_lower s \<noteq> ''merged''"
proof -
  have "lk = foldl registry_item Map.empty items"
    using assms(1,2) by (simp add: build_output_name_lookup_def)
  moreover have "\<forall>k v. foldl registry_item Map.empty items k = Some v \<longrightarrow>
                   (\<exists>s. k = KStr s \<and> s \<noteq> v \<and> py_lower s \<noteq> ''merged'')"
    by (rule registry_fold_invariant) simp
  ultimately show ?thesis using assms(3) by blast
qed

lemma registry_build_returns:
  "available_loras env = Some items \<Longrightarrow> \<exists>lk. build_output_name_lookup env = Inr lk"
  by (simp add: build_output_name_lookup_def)

text \<open>
  Without the registry, an unresolvable or missing directory gives the empty index, and
  a file that cannot be read is passed over.
\<close>

lemma missing_directory_gives_empty:
  assumes "available_loras env = None"
    and "get_lora_directory env = None \<or>
         (\<exists>d. get_lora_directory env = Some d \<and> safetensors_under env d = None)"
  shows "build_output_name_lookup env = Inr Map.empty"
  using assms by (auto simp: build_output_name_lookup_def)

lemma unreadable_file_is_skipped:
  "build_output_name_lookup
     (files_env [(''bad'', ReadFails), (''good'', header_named ''Good'')])
     = Inr [KStr ''Good'' \<mapsto> ''good'']"
  by (simp add: build_output_name_lookup_def files_env_def get_lora_directory_def
      header_named_def scan_file_def load_lora_metadata_def)

text \<open>
  A prompt that is \<^verbatim>\<open>None\<close>, no string or empty resolves to \<^verbatim>\<open>([], "")\<close> in every state
  of the host; a string without a reference does so whenever the index is built.
\<close>

lemma falsy_prompts_resolve_empty:
  "extract_loras_from_prompt F env PNone sel = Inr ([], [])"
  "extract_loras_from_prompt F env (POther b) sel = Inr ([], [])"
  "extract_loras_from_prompt F env (PStr []) sel = Inr ([], [])"
  by (simp_all add: extract_loras_from_prompt_def)

lemma no_reference_resolves_empty:
  assumes "build_output_name_lookup env = Inr lk" and "finditer s = []"
  shows "extract_loras_from_prompt F env (PStr s) sel = Inr ([], [])"
proof (cases "s = []")
  case True
  then show ?thesis by (simp add: falsy_prompts_resolve_empty)
next
  case False
  have "parse_lora_syntax F s = []" using assms(2) by (simp add: parse_lora_syntax_def)
  then show ?thesis by (simp add: extract_opt[OF assms(1) False])
qed

lemma finditer_empty_iff:
  "finditer s = [] \<longleftrightarrow> (\<forall>i < length s. match_here (drop i s) = None)"
proof
  assume e: "finditer s = []"
  show "\<forall>i < length s. match_here (drop i s) = None"
  proof (intro allI impI)
    fix i assume "i < length s"
    moreover from e have e': "finditer_from 0 s = []" unfolding finditer_def .
    have "\<forall>m \<in> set (finditer_from 0 s). 0 + i < m_start m \<or> m_end m \<le> 0 + i"
      unfolding e' by simp
    ultimately show "match_here (drop i s) = None"
      by (rule finditer_from_gaps)
  qed
next
  assume n: "\<forall>i < length s. match_here (drop i s) = None"
  show "finditer s = []"
  proof (cases "finditer s")
    case Nil
    then show ?thesis .
  next
    case (Cons m ms)
    then have "span_ok 0 s m"
      using finditer_from_spans[of m 0 s] by (simp add: finditer_def)
    then have b: "m_start m < length s"
      and t: "take (m_end m - m_start m) (drop (m_start m) s)
                = ref_text (group1 m) (group2 m) (group3 m)"
      and v: "valid_fields (group1 m) (group2 m) (group3 m)"
      by (auto simp: span_ok_def)
    define rest where "rest = drop (m_end m - m_start m) (drop (m_start m) s)"
    have eq: "drop (m_start m) s = ref_text (group1 m) (group2 m) (group3 m) @ rest"
      unfolding t[symmetric] rest_def by (rule append_take_drop_id[symmetric])
    have "match_here (drop (m_start m) s) = Some (group1 m, group2 m, group3 m, rest)"
      unfolding eq by (rule match_here_complete[OF v])
    moreover have "match_here (drop (m_start m) s) = None" using n b by blast
    ultimately have False by simp
    then show ?thesis ..
  qed
qed

lemma py_strip_blank_iff: "py_strip g = [] \<longleftrightarrow> list_all py_isspace g"
proof
  assume "list_all py_isspace g"
  then show "py_strip g = []" by (rule py_strip_spaces)
next
  assume e: "py_strip g = []"
  define r where "r = dropWhile py_isspace g"
  have "dropWhile py_isspace (rev r) = []"
    using e unfolding py_strip_def r_def by simp
  then have all: "\<forall>c \<in> set r. py_isspace c"
    by (simp add: dropWhile_eq_Nil_conv)
  have "r = []"
  proof (rule ccontr)
    assume ne: "r \<noteq> []"
    then have "\<not> py_isspace (hd r)"
      unfolding r_def using hd_dropWhile[of py_isspace g] by simp
    moreover have "hd r \<in> set r" using ne by simp
    ultimately show False using all by blast
  qed
  then show "list_all py_isspace g"
    unfolding r_def by (simp add: dropWhile_eq_Nil_conv list_all_iff)
qed

lemma formatted_part_third:
  assumes "group3 m = Some g"
  shows "formatted_part F (parse_match F m) =
           py_strip (group1 m) @ '':'' @ str_of_float F (read_weight F (group2 m))
             @ (if list_all py_isspace g then [] else '':'' @ py_strip g)"
proof (cases "list_all py_isspace g")
  case True
  then show ?thesis using formatted_part_spaces[OF assms True] by simp
next
  case False
  then have "py_strip g \<noteq> []" by (simp add: py_strip_blank_iff)
  from formatted_part_lbw[OF assms this] False show ?thesis by simp
qed

section \<open>The claims\<close>

text \<open>
  C1. With the index built, resolve applies the first-match-wins policy to every parsed
  reference, in order: the name when it is selectable; otherwise the identifier the
  index maps the name to, when that identifier is selectable; otherwise nothing. Matched
  or not, every reference has its part in the canonical string, and the part begins with
  its name. With \<^verbatim>\<open>TrainedName\<close> mapped to \<^verbatim>\<open>file123\<close>, and \<^verbatim>\<open>float("1")\<close> printed as
  \<^verbatim>\<open>1.0\<close>, resolving \<^verbatim>\<open><lora:TrainedName:1>\<close> against \<^verbatim>\<open>["file123"]\<close> gives
  \<^verbatim>\<open>(["file123"], "TrainedName:1.0")\<close>.
\<close>

theorem resolve_first_match_wins:
  assumes "build_output_name_lookup env = Inr index" and "prompt \<noteq> []"
  shows "extract_loras_from_prompt F env (PStr prompt) (Some selectable) =
           Inr (concat (map (\<lambda>ref. first_match selectable index (fst ref))
                          (parse_lora_syntax F prompt)),
                join_comma (map (formatted_part F) (parse_lora_syntax F prompt)))
         \<and> (\<forall>ref \<in> set (parse_lora_syntax F prompt).
               take (Suc (length (fst ref))) (formatted_part F ref) = fst ref @ '':'')
         \<and> (index (KStr ''TrainedName'') = Some ''file123'' \<longrightarrow>
              float_of_str F ''1'' = Some w \<longrightarrow> str_of_float F w = ''1.0'' \<longrightarrow>
              extract_loras_from_prompt F env (PStr ''<lora:TrainedName:1>'') (Some [''file123''])
                = Inr ([''file123''], ''TrainedName:1.0''))"
proof (intro conjI ballI impI)
  show "extract_loras_from_prompt F env (PStr prompt) (Some selectable) =
           Inr (concat (map (\<lambda>ref. first_match selectable index (fst ref))
                          (parse_lora_syntax F prompt)),
                join_comma (map (formatted_part F) (parse_lora_syntax F prompt)))"
    by (rule extract_str[OF assms])
next
  fix ref
  show "take (Suc (length (fst ref))) (formatted_part F ref) = fst ref @ '':''"
    by (rule formatted_part_name)
next
  assume idx: "index (KStr ''TrainedName'') = Some ''file123''"
    and w: "float_of_str F ''1'' = Some w" "str_of_float F w = ''1.0''"
  have v: "valid_fields ''TrainedName'' ''1'' None"
    by (simp add: valid_fields_def grammar_fields_def name_char_def)
  have t: "''<lora:TrainedName:1>'' = ref_text ''TrainedName'' ''1'' None"
    by (simp add: ref_text_def)
  have p: "parse_lora_syntax F ''<lora:TrainedName:1>'' = [(''TrainedName'', w, None)]"
    unfolding t parse_single[OF v] using w by (simp add: read_weight_def)
  show "extract_loras_from_prompt F env (PStr ''<lora:TrainedName:1>'') (Some [''file123''])
          = Inr ([''file123''], ''TrainedName:1.0'')"
    using idx w
    by (simp add: extract_str[OF assms(1)] p first_match_def formatted_part_def dom_def)
qed

theorem resolve_first_match_wins_witness:
  "build_output_name_lookup registry_env = Inr [KStr ''TrainedName'' \<mapsto> ''file123'']
   \<and> ''<lora:TrainedName:1>'' \<noteq> []
   \<and> [KStr ''TrainedName'' \<mapsto> ''file123''] (KStr ''TrainedName'') = Some ''file123''
   \<and> float_of_str decimal_ops ''1'' = Some (''1'', [])
   \<and> str_of_float decimal_ops (''1'', []) = ''1.0''
   \<and> extract_loras_from_prompt decimal_ops registry_env (PStr ''<lora:TrainedName:1>'')
         (Some [''file123'']) = Inr ([''file123''], ''TrainedName:1.0'')"
proof -
  have ne: "''<lora:TrainedName:1>'' \<noteq> []" by simp
  have idx: "[KStr ''TrainedName'' \<mapsto> ''file123''] (KStr ''TrainedName'') = Some ''file123''"
    by simp
  have r: "extract_loras_from_prompt decimal_ops registry_env (PStr ''<lora:TrainedName:1>'')
             (Some [''file123'']) = Inr ([''file123''], ''TrainedName:1.0'')"
    using resolve_first_match_wins[OF registry_env_index ne, of decimal_ops "[''file123'']" "(''1'', [])"]
      idx decimal_one(1,2) by blast
  show ?thesis
    by (intro conjI registry_env_index ne idx decimal_one(1,2) r)
qed

text \<open>
  C2, on the code. Without the registry the index comes from the scan of the files, and
  the scan stores every non-empty output name: a file \<^verbatim>\<open>foo\<close> whose output name is
  \<^verbatim>\<open>foo\<close> is mapped to itself, and the output name \<^verbatim>\<open>Merged\<close> becomes a key. The loop over
  the registry filters both.
\<close>

theorem scan_keeps_self_and_merged:
  "build_output_name_lookup
     (files_env [(''foo'', header_named ''foo''), (''bar'', header_named ''Merged'')])
     = Inr [KStr ''foo'' \<mapsto> ''foo'', KStr ''Merged'' \<mapsto> ''bar'']
   \<and> py_lower ''Merged'' = ''merged''"
proof -
  have "py_lower ''Merged'' = ''merged''" by code_simp
  moreover have "build_output_name_lookup
     (files_env [(''foo'', header_named ''foo''), (''bar'', header_named ''Merged'')])
     = Inr [KStr ''foo'' \<mapsto> ''foo'', KStr ''Merged'' \<mapsto> ''bar'']"
    by (simp add: build_output_name_lookup_def files_env_def get_lora_directory_def
        header_named_def scan_file_def load_lora_metadata_def)
  ultimately show ?thesis by simp
qed

text \<open>
  C3, on the code. A file whose header is \<^verbatim>\<open>{"__metadata__": [1]}\<close> passes
  \<^verbatim>\<open>load_lora_metadata\<close>, and \<^verbatim>\<open>metadata.get\<close> outside any \<^verbatim>\<open>try\<close> raises
  \<^verbatim>\<open>AttributeError\<close>: the function raises and the valid file scanned before it is not
  indexed. An output name that is a list raises \<^verbatim>\<open>TypeError\<close> at the store.
\<close>

theorem corrupt_metadata_raises:
  "build_output_name_lookup
     (files_env [(''good'', header_named ''Good''),
                 (''bad'', Header (JObj [(''__metadata__'', JArr [JNum 1])]))])
     = Inl AttributeError
   \<and> build_output_name_lookup
       (files_env [(''good'', header_named ''Good''),
                   (''bad'', Header (JObj [(''__metadata__'',
                              JObj [(''ss_output_name'', JArr [JStr ''x''])])]))])
     = Inl TypeError"
  by (simp add: build_output_name_lookup_def files_env_def get_lora_directory_def
      header_named_def scan_file_def load_lora_metadata_def)

text \<open>
  C4. Parsing yields one reference per match, none discarded, and a reference whose weight
  field \<^verbatim>\<open>float\<close> cannot read carries the weight \<^verbatim>\<open>1.0\<close>; the parser is total, so
  nothing is raised. With \<^verbatim>\<open>float("oops")\<close> failing and \<^verbatim>\<open>1.0\<close> printed as \<^verbatim>\<open>1.0\<close>,
  resolving \<^verbatim>\<open><lora:A:oops>\<close> against \<^verbatim>\<open>["A"]\<close> gives \<^verbatim>\<open>(["A"], "A:1.0")\<close> whenever the
  index is built.
\<close>

theorem unparsable_weight_defaults:
  "length (parse_lora_syntax F prompt) = length (finditer prompt)
   \<and> (\<forall>i < length (finditer prompt).
         float_of_str F (group2 (finditer prompt ! i)) = None \<longrightarrow>
         parse_lora_syntax F prompt ! i =
           (py_strip (group1 (finditer prompt ! i)), float_one F,
            map_option py_strip (group3 (finditer prompt ! i))))
   \<and> (float_of_str F ''oops'' = None \<longrightarrow> str_of_float F (float_one F) = ''1.0'' \<longrightarrow>
        build_output_name_lookup env = Inr index \<longrightarrow>
        extract_loras_from_prompt F env (PStr ''<lora:A:oops>'') (Some [''A''])
          = Inr ([''A''], ''A:1.0''))"
proof (intro conjI allI impI)
  show "length (parse_lora_syntax F prompt) = length (finditer prompt)"
    by (simp add: parse_lora_syntax_def)
next
  fix i
  assume "i < length (finditer prompt)"
    and "float_of_str F (group2 (finditer prompt ! i)) = None"
  then show "parse_lora_syntax F prompt ! i =
           (py_strip (group1 (finditer prompt ! i)), float_one F,
            map_option py_strip (group3 (finditer prompt ! i)))"
    by (cases "group3 (finditer prompt ! i)")
       (simp_all add: parse_lora_syntax_def parse_match_def read_weight_def)
next
  assume f: "float_of_str F ''oops'' = None" "str_of_float F (float_one F) = ''1.0''"
    and b: "build_output_name_lookup env = Inr index"
  have v: "valid_fields ''A'' ''oops'' None"
    by (simp add: valid_fields_def grammar_fields_def name_char_def)
  have t: "''<lora:A:oops>'' = ref_text ''A'' ''oops'' None"
    by (simp add: ref_text_def)
  have p: "parse_lora_syntax F ''<lora:A:oops>'' = [(''A'', float_one F, None)]"
    unfolding t parse_single[OF v] using f by (simp add: read_weight_def)
  show "extract_loras_from_prompt F env (PStr ''<lora:A:oops>'') (Some [''A''])
          = Inr ([''A''], ''A:1.0'')"
    using f by (simp add: extract_str[OF b] p first_match_def formatted_part_def)
qed

theorem unparsable_weight_defaults_witness:
  "float_of_str decimal_ops (group2 (finditer ''<lora:A:oops>'' ! 0)) = None
   \<and> parse_lora_syntax decimal_ops ''<lora:A:oops>'' ! 0 = (''A'', float_one decimal_ops, None)
   \<and> float_of_str decimal_ops ''oops'' = None
   \<and> str_of_float decimal_ops (float_one decimal_ops) = ''1.0''
   \<and> build_output_name_lookup registry_env = Inr [KStr ''TrainedName'' \<mapsto> ''file123'']
   \<and> extract_loras_from_prompt decimal_ops registry_env (PStr ''<lora:A:oops>'') (Some [''A''])
         = Inr ([''A''], ''A:1.0'')"
proof -
  have v: "valid_fields ''A'' ''oops'' None"
    by (simp add: valid_fields_def grammar_fields_def name_char_def)
  have t: "''<lora:A:oops>'' = ref_text ''A'' ''oops'' None"
    by (simp add: ref_text_def)
  have fi: "finditer ''<lora:A:oops>'' =
      [\<lparr>m_start = 0, m_end = length (ref_text ''A'' ''oops'' None),
        group1 = ''A'', group2 = ''oops'', group3 = None\<rparr>]"
    unfolding t by (rule finditer_single[OF v])
  have g: "float_of_str decimal_ops (group2 (finditer ''<lora:A:oops>'' ! 0)) = None"
    by (simp add: fi decimal_one)
  have one: "str_of_float decimal_ops (float_one decimal_ops) = ''1.0''"
    by (simp add: decimal_one)
  note th = unparsable_weight_defaults[of decimal_ops "''<lora:A:oops>''" registry_env
      "[KStr ''TrainedName'' \<mapsto> ''file123'']"]
  have p: "parse_lora_syntax decimal_ops ''<lora:A:oops>'' ! 0 = (''A'', float_one decimal_ops, None)"
    using th g by (simp add: fi)
  have r: "extract_loras_from_prompt decimal_ops registry_env (PStr ''<lora:A:oops>'') (Some [''A''])
         = Inr ([''A''], ''A:1.0'')"
    using th decimal_one(4) one registry_env_index by blast
  show ?thesis
    by (intro conjI g p decimal_one(4) one registry_env_index r)
qed

text \<open>
  C5. The matches of the scan lie one after the other in the prompt, each ending before
  the next begins. With the index built, the matched list and the parts of the canonical
  string are produced match by match in that order, so a reference that occurs twice
  contributes twice. With \<^verbatim>\<open>float("1")\<close> printed as \<^verbatim>\<open>1.0\<close>, resolving
  \<^verbatim>\<open><lora:A:1><lora:B:1><lora:A:1>\<close> against \<^verbatim>\<open>["A","B"]\<close> gives
  \<^verbatim>\<open>(["A","B","A"], "A:1.0,B:1.0,A:1.0")\<close>.
\<close>

theorem resolve_preserves_order:
  assumes "build_output_name_lookup env = Inr index" and "prompt \<noteq> []"
  shows "sorted_wrt (\<lambda>a b. m_end a \<le> m_start b) (finditer prompt)
         \<and> (\<forall>m \<in> set (finditer prompt). m_start m < m_end m)
         \<and> extract_loras_from_prompt F env (PStr prompt) (Some selectable) =
             Inr (concat (map (\<lambda>m. first_match selectable index (py_strip (group1 m)))
                            (finditer prompt)),
                  join_comma (map (\<lambda>m. formatted_part F (parse_match F m)) (finditer prompt)))
         \<and> (float_of_str F ''1'' = Some w \<longrightarrow> str_of_float F w = ''1.0'' \<longrightarrow>
              extract_loras_from_prompt F env (PStr ''<lora:A:1><lora:B:1><lora:A:1>'')
                (Some [''A'', ''B''])
                = Inr ([''A'', ''B'', ''A''], ''A:1.0,B:1.0,A:1.0''))"
proof (intro conjI ballI impI)
  show "sorted_wrt (\<lambda>a b. m_end a \<le> m_start b) (finditer prompt)"
    unfolding finditer_def by (rule finditer_from_sorted)
next
  fix m assume "m \<in> set (finditer prompt)"
  then show "m_start m < m_end m"
    unfolding finditer_def using finditer_from_spans[of m 0 prompt] by (simp add: span_ok_def)
next
  have "map (\<lambda>ref. first_match selectable index (fst ref)) (parse_lora_syntax F prompt)
          = map (\<lambda>m. first_match selectable index (py_strip (group1 m))) (finditer prompt)"
    by (simp add: parse_lora_syntax_def parse_match_def Let_def)
  moreover have "map (formatted_part F) (parse_lora_syntax F prompt)
          = map (\<lambda>m. formatted_part F (parse_match F m)) (finditer prompt)"
    by (simp add: parse_lora_syntax_def)
  ultimately show "extract_loras_from_prompt F env (PStr prompt) (Some selectable) =
             Inr (concat (map (\<lambda>m. first_match selectable index (py_strip (group1 m)))
                            (finditer prompt)),
                  join_comma (map (\<lambda>m. formatted_part F (parse_match F m)) (finditer prompt)))"
    using extract_str[OF assms, of F selectable] by simp
next
  assume w: "float_of_str F ''1'' = Some w" "str_of_float F w = ''1.0''"
  have vA: "valid_fields ''A'' ''1'' None" and vB: "valid_fields ''B'' ''1'' None"
    by (simp_all add: valid_fields_def grammar_fields_def name_char_def)
  have t: "''<lora:A:1><lora:B:1><lora:A:1>'' =
             ref_text ''A'' ''1'' None @ ref_text ''B'' ''1'' None @ ref_text ''A'' ''1'' None @ []"
    by (simp add: ref_text_def)
  have p: "parse_lora_syntax F ''<lora:A:1><lora:B:1><lora:A:1>'' =
             [(''A'', w, None), (''B'', w, None), (''A'', w, None)]"
    unfolding parse_lora_syntax_def finditer_def t
    using w by (simp add: parse_hit[OF vA] parse_hit[OF vB] parse_hit_last[OF vA] read_weight_def)
  show "extract_loras_from_prompt F env (PStr ''<lora:A:1><lora:B:1><lora:A:1>'')
                (Some [''A'', ''B''])
                = Inr ([''A'', ''B'', ''A''], ''A:1.0,B:1.0,A:1.0'')"
    using w by (simp add: extract_str[OF assms(1)] p first_match_def formatted_part_def)
qed

theorem resolve_preserves_order_witness:
  "build_output_name_lookup bare_env = Inr Map.empty
   \<and> ''<lora:A:1><lora:B:1><lora:A:1>'' \<noteq> []
   \<and> float_of_str decimal_ops ''1'' = Some (''1'', [])
   \<and> str_of_float decimal_ops (''1'', []) = ''1.0''
   \<and> extract_loras_from_prompt decimal_ops bare_env (PStr ''<lora:A:1><lora:B:1><lora:A:1>'')
         (Some [''A'', ''B'']) = Inr ([''A'', ''B'', ''A''], ''A:1.0,B:1.0,A:1.0'')"
proof -
  have b: "build_output_name_lookup bare_env = Inr Map.empty"
    by (simp add: build_output_name_lookup_def bare_env_def get_lora_directory_def)
  have ne: "''<lora:A:1><lora:B:1><lora:A:1>'' \<noteq> []" by simp
  have r: "extract_loras_from_prompt decimal_ops bare_env (PStr ''<lora:A:1><lora:B:1><lora:A:1>'')
         (Some [''A'', ''B'']) = Inr ([''A'', ''B'', ''A''], ''A:1.0,B:1.0,A:1.0'')"
    using resolve_preserves_order[OF b ne, of decimal_ops "[''A'', ''B'']" "(''1'', [])"]
      decimal_one(1,2) by blast
  show ?thesis by (intro conjI b ne decimal_one(1,2) r)
qed

text \<open>
  C6, on the code. A non-empty prompt without any reference still has the index built,
  and what the build raises leaves the resolver: with the file of C3 in the LoRA
  directory, resolving \<^verbatim>\<open>hello\<close> raises \<^verbatim>\<open>AttributeError\<close>.
\<close>

theorem prompt_without_references_raises:
  "finditer ''hello'' = []
   \<and> extract_loras_from_prompt decimal_ops
       (files_env [(''good'', header_named ''Good''),
                   (''bad'', Header (JObj [(''__metadata__'', JArr [JNum 1])]))])
       (PStr ''hello'') None
     = Inl AttributeError"
proof -
  have "build_output_name_lookup
     (files_env [(''good'', header_named ''Good''),
                 (''bad'', Header (JObj [(''__metadata__'', JArr [JNum 1])]))])
     = Inl AttributeError"
    by (simp add: build_output_name_lookup_def files_env_def get_lora_directory_def
      header_named_def scan_file_def load_lora_metadata_def)
  then show ?thesis
    by (simp add: finditer_hello extract_loras_from_prompt_def Let_def)
qed

text \<open>
  C7, as amended. The parser extracts exactly the references of the prompt whose fields
  are non-empty, leftmost first and without overlap: every match spells, at its span, a
  reference with non-empty name and weight free of \<^verbatim>\<open>:\<close> and \<^verbatim>\<open>>\<close> and, when present, a
  non-empty third field free of \<^verbatim>\<open>>\<close>; the spans follow one another; every such
  reference that begins somewhere in the prompt is a match, or begins inside one; and
  the parsed tuples are the matches with name and third field stripped.
\<close>

theorem parse_extracts_nonempty_references:
  "(\<forall>m \<in> set (finditer prompt). span_ok 0 prompt m)
   \<and> sorted_wrt (\<lambda>a b. m_end a \<le> m_start b) (finditer prompt)
   \<and> (\<forall>i g1 g2 g3 rest.
         i < length prompt \<and> valid_fields g1 g2 g3 \<and> drop i prompt = ref_text g1 g2 g3 @ rest \<longrightarrow>
         (\<exists>m \<in> set (finditer prompt). m_start m \<le> i \<and> i < m_end m \<and>
            (m_start m = i \<longrightarrow> group1 m = g1 \<and> group2 m = g2 \<and> group3 m = g3)))
   \<and> parse_lora_syntax F prompt =
       map (\<lambda>m. (py_strip (group1 m), read_weight F (group2 m), map_option py_strip (group3 m)))
         (finditer prompt)"
proof (intro conjI ballI allI impI)
  fix m assume "m \<in> set (finditer prompt)"
  then show "span_ok 0 prompt m" unfolding finditer_def by (rule finditer_from_spans)
next
  show "sorted_wrt (\<lambda>a b. m_end a \<le> m_start b) (finditer prompt)"
    unfolding finditer_def by (rule finditer_from_sorted)
next
  fix i g1 g2 g3 rest
  assume "i < length prompt \<and> valid_fields g1 g2 g3 \<and> drop i prompt = ref_text g1 g2 g3 @ rest"
  then show "\<exists>m \<in> set (finditer prompt). m_start m \<le> i \<and> i < m_end m \<and>
            (m_start m = i \<longrightarrow> group1 m = g1 \<and> group2 m = g2 \<and> group3 m = g3)"
    using finditer_covers by blast
next
  have "parse_match F = (\<lambda>m. (py_strip (group1 m), read_weight F (group2 m),
                               map_option py_strip (group3 m)))"
    by (rule ext) (simp add: parse_match_def split: option.splits)
  then show "parse_lora_syntax F prompt =
       map (\<lambda>m. (py_strip (group1 m), read_weight F (group2 m), map_option py_strip (group3 m)))
         (finditer prompt)"
    by (simp add: parse_lora_syntax_def)
qed

theorem parse_extracts_nonempty_references_witness:
  "finditer ''a<lora:A:1>'' =
     [\<lparr>m_start = 1, m_end = 11, group1 = ''A'', group2 = ''1'', group3 = None\<rparr>]
   \<and> span_ok 0 ''a<lora:A:1>''
       \<lparr>m_start = 1, m_end = 11, group1 = ''A'', group2 = ''1'', group3 = None\<rparr>
   \<and> valid_fields ''A'' ''1'' None
   \<and> drop 1 ''a<lora:A:1>'' = ref_text ''A'' ''1'' None @ []
   \<and> parse_lora_syntax decimal_ops ''a<lora:A:1>'' = [(''A'', (''1'', []), None)]"
proof -
  have n: "match_here ''a<lora:A:1>'' = None" by (simp add: match_here_def)
  have v: "valid_fields ''A'' ''1'' None"
    by (simp add: valid_fields_def grammar_fields_def name_char_def)
  have t: "''<lora:A:1>'' = ref_text ''A'' ''1'' None @ []" by (simp add: ref_text_def)
  have f: "finditer ''a<lora:A:1>'' =
     [\<lparr>m_start = 1, m_end = 11, group1 = ''A'', group2 = ''1'', group3 = None\<rparr>]"
  proof -
    have "finditer ''a<lora:A:1>'' = finditer_from (Suc 0) ''<lora:A:1>''"
      unfolding finditer_def by (rule finditer_from_skip[OF n])
    also have "\<dots> = finditer_from (Suc 0) (ref_text ''A'' ''1'' None @ [])"
      by (simp only: t[symmetric])
    also have "\<dots> = [\<lparr>m_start = 1, m_end = 11, group1 = ''A'', group2 = ''1'', group3 = None\<rparr>]"
      unfolding finditer_from_hit[OF v] by (simp add: finditer_from_Nil ref_text_def)
    finally show ?thesis .
  qed
  note th = parse_extracts_nonempty_references[of "''a<lora:A:1>''" decimal_ops]
  have s: "span_ok 0 ''a<lora:A:1>''
       \<lparr>m_start = 1, m_end = 11, group1 = ''A'', group2 = ''1'', group3 = None\<rparr>"
    using th[THEN conjunct1] by (simp add: f)
  have d: "drop 1 ''a<lora:A:1>'' = ref_text ''A'' ''1'' None @ []"
    by (simp add: ref_text_def)
  have p: "parse_lora_syntax decimal_ops ''a<lora:A:1>'' = [(''A'', (''1'', []), None)]"
    using th[THEN conjunct2, THEN conjunct2, THEN conjunct2]
    by (simp add: f read_weight_def decimal_one)
  show ?thesis by (intro conjI f s v d p)
qed

text \<open>
  The claim as it is worded asks for no non-empty field. The text \<^verbatim>\<open><lora::1>\<close> is
  delimited by \<^verbatim>\<open><lora:\<close> and \<^verbatim>\<open>>\<close> and holds two colon-separated fields, the name empty
  and the weight \<^verbatim>\<open>1\<close>, neither with \<^verbatim>\<open>:\<close> or \<^verbatim>\<open>>\<close> in it; the parser extracts nothing
  from it.
\<close>

theorem empty_name_is_not_extracted:
  "grammar_fields [] ''1'' None
   \<and> ref_text [] ''1'' None = ''<lora::1>''
   \<and> parse_lora_syntax decimal_ops ''<lora::1>'' = []"
proof -
  have g: "grammar_fields [] ''1'' None" by (simp add: grammar_fields_def name_char_def)
  have t: "ref_text [] ''1'' None = ''<lora::1>''" by (simp add: ref_text_def)
  have f: "finditer ''<lora::1>'' = []"
    by (simp add: finditer_def finditer_from_Cons finditer_from_Nil match_here_def Let_def
        name_char_def)
  have p: "parse_lora_syntax decimal_ops ''<lora::1>'' = []"
    by (simp add: parse_lora_syntax_def f)
  show ?thesis by (intro conjI g t p)
qed

text \<open>
  C8, as amended. A third field that is not whitespace only reaches the canonical string
  trimmed of the whitespace around it, as the grammar has it, and otherwise as written,
  uninterpreted; a third field of whitespace only is left out, and the part of its
  reference is \<^verbatim>\<open>name:weight\<close>. This holds for the part of every match in any prompt, and,
  with the index built, end to end for a prompt that is one reference. A field that
  neither begins nor ends with whitespace is not blank and is its own trimmed form; and
  with \<^verbatim>\<open>float("1")\<close> printed as \<^verbatim>\<open>1.0\<close> the prompt \<^verbatim>\<open><lora:A:1:0,0,1,1>\<close> has the
  canonical string \<^verbatim>\<open>A:1.0:0,0,1,1\<close>.
\<close>

theorem lbw_carried_through_unless_blank:
  assumes "build_output_name_lookup env = Inr index"
    and "valid_fields g1 g2 (Some g3)"
  shows "extract_loras_from_prompt F env (PStr (ref_text g1 g2 (Some g3))) sel =
           Inr (first_match (case sel of None \<Rightarrow> [] | Some l \<Rightarrow> l) index (py_strip g1),
                py_strip g1 @ '':'' @ str_of_float F (read_weight F g2)
                  @ (if list_all py_isspace g3 then [] else '':'' @ py_strip g3))
         \<and> (\<not> py_isspace (hd g3) \<and> \<not> py_isspace (last g3) \<longrightarrow>
               py_strip g3 = g3 \<and> \<not> list_all py_isspace g3)
         \<and> (\<forall>m \<in> set (finditer prompt). \<forall>g. group3 m = Some g \<longrightarrow>
               formatted_part F (parse_match F m) =
                 py_strip (group1 m) @ '':'' @ str_of_float F (read_weight F (group2 m))
                   @ (if list_all py_isspace g then [] else '':'' @ py_strip g))
         \<and> (float_of_str F ''1'' = Some w \<longrightarrow> str_of_float F w = ''1.0'' \<longrightarrow>
              extract_loras_from_prompt F env (PStr ''<lora:A:1:0,0,1,1>'') sel =
                Inr (first_match (case sel of None \<Rightarrow> [] | Some l \<Rightarrow> l) index ''A'',
                     ''A:1.0:0,0,1,1''))"
proof (intro conjI ballI allI impI)
  have ne3: "g3 \<noteq> []" using assms(2) by (auto simp: valid_fields_def)
  show "extract_loras_from_prompt F env (PStr (ref_text g1 g2 (Some g3))) sel =
           Inr (first_match (case sel of None \<Rightarrow> [] | Some l \<Rightarrow> l) index (py_strip g1),
                py_strip g1 @ '':'' @ str_of_float F (read_weight F g2)
                  @ (if list_all py_isspace g3 then [] else '':'' @ py_strip g3))"
  proof (cases "list_all py_isspace g3")
    case True
    then show ?thesis
      by (simp add: extract_opt[OF assms(1) ref_text_ne] parse_single[OF assms(2)]
          formatted_part_def py_strip_spaces)
  next
    case False
    then have "py_strip g3 \<noteq> []" by (simp add: py_strip_blank_iff)
    with False show ?thesis
      by (simp add: extract_opt[OF assms(1) ref_text_ne] parse_single[OF assms(2)]
          formatted_part_def)
  qed
  {
    assume a: "\<not> py_isspace (hd g3) \<and> \<not> py_isspace (last g3)"
    then show "py_strip g3 = g3" using py_strip_keeps[OF ne3] by blast
    have "hd g3 \<in> set g3" using ne3 by simp
    with a show "\<not> list_all py_isspace g3" by (auto simp: list_all_iff)
  }
next
  fix m :: re_match and g
  assume "group3 m = Some g"
  then show "formatted_part F (parse_match F m) =
                 py_strip (group1 m) @ '':'' @ str_of_float F (read_weight F (group2 m))
                   @ (if list_all py_isspace g then [] else '':'' @ py_strip g)"
    by (rule formatted_part_third)
next
  assume w: "float_of_str F ''1'' = Some w" "str_of_float F w = ''1.0''"
  have v: "valid_fields ''A'' ''1'' (Some ''0,0,1,1'')"
    by (simp add: valid_fields_def grammar_fields_def name_char_def lbw_char_def)
  have t: "''<lora:A:1:0,0,1,1>'' = ref_text ''A'' ''1'' (Some ''0,0,1,1'')"
    by (simp add: ref_text_def)
  have s: "py_strip ''0,0,1,1'' = ''0,0,1,1''"
    by (simp add: py_strip_def py_isspace_def)
  have p: "parse_lora_syntax F ''<lora:A:1:0,0,1,1>'' = [(''A'', w, Some ''0,0,1,1'')]"
    unfolding t parse_single[OF v] using w by (simp add: read_weight_def s)
  have ne: "''<lora:A:1:0,0,1,1>'' \<noteq> []" by simp
  show "extract_loras_from_prompt F env (PStr ''<lora:A:1:0,0,1,1>'') sel =
                Inr (first_match (case sel of None \<Rightarrow> [] | Some l \<Rightarrow> l) index ''A'',
                     ''A:1.0:0,0,1,1'')"
    using w by (simp add: extract_opt[OF assms(1) ne] p formatted_part_def)
qed

theorem lbw_carried_through_unless_blank_witness:
  "build_output_name_lookup bare_env = Inr Map.empty
   \<and> valid_fields ''A'' ''1'' (Some '' 0,0,1,1 '')
   \<and> \<not> list_all py_isspace '' 0,0,1,1 ''
   \<and> ref_text ''A'' ''1'' (Some '' 0,0,1,1 '') = ''<lora:A:1: 0,0,1,1 >''
   \<and> read_weight decimal_ops ''1'' = (''1'', [])
   \<and> extract_loras_from_prompt decimal_ops bare_env (PStr ''<lora:A:1: 0,0,1,1 >'') (Some [''A''])
       = Inr ([''A''], ''A:1.0:0,0,1,1'')
   \<and> valid_fields ''A'' ''1'' (Some ''0,0,1,1'')
   \<and> \<not> py_isspace (hd ''0,0,1,1'') \<and> \<not> py_isspace (last ''0,0,1,1'')
   \<and> py_strip ''0,0,1,1'' = ''0,0,1,1''
   \<and> float_of_str decimal_ops ''1'' = Some (''1'', [])
   \<and> str_of_float decimal_ops (''1'', []) = ''1.0''
   \<and> extract_loras_from_prompt decimal_ops bare_env (PStr ''<lora:A:1:0,0,1,1>'') (Some [''A''])
       = Inr ([''A''], ''A:1.0:0,0,1,1'')"
proof -
  have vp: "valid_fields ''A'' ''1'' (Some '' 0,0,1,1 '')"
    and v: "valid_fields ''A'' ''1'' (Some ''0,0,1,1'')"
    by (simp_all add: valid_fields_def grammar_fields_def name_char_def lbw_char_def)
  have nb: "\<not> list_all py_isspace '' 0,0,1,1 ''" by (simp add: py_isspace_def)
  have tp: "ref_text ''A'' ''1'' (Some '' 0,0,1,1 '') = ''<lora:A:1: 0,0,1,1 >''"
    by (simp add: ref_text_def)
  have sp: "py_strip '' 0,0,1,1 '' = ''0,0,1,1''" and sa: "py_strip ''A'' = ''A''"
    by (simp_all add: py_strip_def py_isspace_def)
  have rw: "read_weight decimal_ops ''1'' = (''1'', [])"
    by (simp add: read_weight_def decimal_one)
  have h: "\<not> py_isspace (hd ''0,0,1,1'')" and l: "\<not> py_isspace (last ''0,0,1,1'')"
    by (simp_all add: py_isspace_def)
  note padded = lbw_carried_through_unless_blank[OF bare_env_index vp,
      of decimal_ops "Some [''A'']" "[]" "(''1'', [])", unfolded tp]
  have r1: "extract_loras_from_prompt decimal_ops bare_env (PStr ''<lora:A:1: 0,0,1,1 >'')
              (Some [''A'']) = Inr ([''A''], ''A:1.0:0,0,1,1'')"
    using padded[THEN conjunct1] nb
    by (simp add: first_match_def rw sp sa decimal_one)
  note plain = lbw_carried_through_unless_blank[OF bare_env_index v,
      of decimal_ops "Some [''A'']" "[]" "(''1'', [])"]
  have s: "py_strip ''0,0,1,1'' = ''0,0,1,1''"
    using plain[THEN conjunct2, THEN conjunct1] h l by blast
  have r2: "extract_loras_from_prompt decimal_ops bare_env (PStr ''<lora:A:1:0,0,1,1>'')
              (Some [''A'']) = Inr ([''A''], ''A:1.0:0,0,1,1'')"
    using plain[THEN conjunct2, THEN conjunct2, THEN conjunct2] decimal_one(1,2)
    by (simp add: first_match_def)
  show ?thesis
    by (intro conjI bare_env_index vp nb tp rw r1 v h l s decimal_one(1,2) r2)
qed

text \<open>
  The claim as it is worded has every third field carried through. In \<^verbatim>\<open><lora:A:1: >\<close>
  the reference carries a third field, a single space; the canonical string is
  \<^verbatim>\<open>A:1.0\<close>, with no third field and no colon for it.
\<close>

theorem blank_lbw_is_not_carried_through:
  "ref_text ''A'' ''1'' (Some '' '') = ''<lora:A:1: >''
   \<and> valid_fields ''A'' ''1'' (Some '' '')
   \<and> map group3 (finditer ''<lora:A:1: >'') = [Some '' '']
   \<and> build_output_name_lookup bare_env = Inr Map.empty
   \<and> extract_loras_from_prompt decimal_ops bare_env (PStr ''<lora:A:1: >'') (Some [''A''])
       = Inr ([''A''], ''A:1.0'')"
proof -
  have t: "ref_text ''A'' ''1'' (Some '' '') = ''<lora:A:1: >''"
    by (simp add: ref_text_def)
  have v: "valid_fields ''A'' ''1'' (Some '' '')"
    by (simp add: valid_fields_def grammar_fields_def name_char_def lbw_char_def)
  have g: "map group3 (finditer ''<lora:A:1: >'') = [Some '' '']"
    unfolding t[symmetric] finditer_single[OF v] by simp
  have s: "py_strip '' '' = []" by (simp add: py_strip_def py_isspace_def)
  have ne: "''<lora:A:1: >'' \<noteq> []" by simp
  have p: "parse_lora_syntax decimal_ops ''<lora:A:1: >'' = [(''A'', (''1'', []), Some [])]"
    unfolding t[symmetric] parse_single[OF v] by (simp add: read_weight_def decimal_one s)
  have r: "extract_loras_from_prompt decimal_ops bare_env (PStr ''<lora:A:1: >'') (Some [''A''])
       = Inr ([''A''], ''A:1.0'')"
    by (simp add: extract_str[OF bare_env_index ne] p first_match_def formatted_part_def
        decimal_one)
  show ?thesis by (intro conjI t v g bare_env_index r)
qed



text \<open>
  C10. A third field of whitespace only counts as no third field. In any prompt the part
  of such a reference is \<^verbatim>\<open>name:weight\<close>; and with the index built, a prompt that is one
  such reference resolves to exactly what the same reference without a third field
  resolves to.
\<close>

theorem whitespace_lbw_is_dropped:
  assumes "build_output_name_lookup env = Inr index"
    and "valid_fields g1 g2 (Some g3)" and "list_all py_isspace g3"
  shows "extract_loras_from_prompt F env (PStr (ref_text g1 g2 (Some g3))) sel =
           Inr (first_match (case sel of None \<Rightarrow> [] | Some l \<Rightarrow> l) index (py_strip g1),
                py_strip g1 @ '':'' @ str_of_float F (read_weight F g2))
         \<and> extract_loras_from_prompt F env (PStr (ref_text g1 g2 (Some g3))) sel =
             extract_loras_from_prompt F env (PStr (ref_text g1 g2 None)) sel
         \<and> (\<forall>m \<in> set (finditer prompt). \<forall>g. group3 m = Some g \<and> list_all py_isspace g \<longrightarrow>
               formatted_part F (parse_match F m) =
                 py_strip (group1 m) @ '':'' @ str_of_float F (read_weight F (group2 m)))"
proof (intro conjI ballI allI impI)
  have three: "extract_loras_from_prompt F env (PStr (ref_text g1 g2 (Some g3))) sel =
           Inr (first_match (case sel of None \<Rightarrow> [] | Some l \<Rightarrow> l) index (py_strip g1),
                py_strip g1 @ '':'' @ str_of_float F (read_weight F g2))"
    using assms(3)
    by (simp add: extract_opt[OF assms(1) ref_text_ne] parse_single[OF assms(2)]
        formatted_part_def py_strip_spaces)
  have two: "extract_loras_from_prompt F env (PStr (ref_text g1 g2 None)) sel =
           Inr (first_match (case sel of None \<Rightarrow> [] | Some l \<Rightarrow> l) index (py_strip g1),
                py_strip g1 @ '':'' @ str_of_float F (read_weight F g2))"
    by (simp add: extract_opt[OF assms(1) ref_text_ne]
        parse_single[OF valid_fields_two[OF assms(2)]] formatted_part_def)
  show "extract_loras_from_prompt F env (PStr (ref_text g1 g2 (Some g3))) sel =
           Inr (first_match (case sel of None \<Rightarrow> [] | Some l \<Rightarrow> l) index (py_strip g1),
                py_strip g1 @ '':'' @ str_of_float F (read_weight F g2))"
    by (rule three)
  show "extract_loras_from_prompt F env (PStr (ref_text g1 g2 (Some g3))) sel =
             extract_loras_from_prompt F env (PStr (ref_text g1 g2 None)) sel"
    unfolding three two ..
next
  fix m :: re_match and g
  assume "group3 m = Some g \<and> list_all py_isspace g"
  then show "formatted_part F (parse_match F m) =
                 py_strip (group1 m) @ '':'' @ str_of_float F (read_weight F (group2 m))"
    using formatted_part_spaces by blast
qed

theorem whitespace_lbw_is_dropped_witness:
  "build_output_name_lookup bare_env = Inr Map.empty
   \<and> valid_fields ''A'' ''1'' (Some '' '')
   \<and> list_all py_isspace '' ''
   \<and> ref_text ''A'' ''1'' (Some '' '') = ''<lora:A:1: >''
   \<and> extract_loras_from_prompt decimal_ops bare_env (PStr ''<lora:A:1: >'') (Some [''A''])
       = Inr ([''A''], ''A:1.0'')
   \<and> extract_loras_from_prompt decimal_ops bare_env (PStr ''<lora:A:1: >'') (Some [''A''])
       = extract_loras_from_prompt decimal_ops bare_env (PStr ''<lora:A:1>'') (Some [''A''])"
proof -
  have v: "valid_fields ''A'' ''1'' (Some '' '')"
    by (simp add: valid_fields_def grammar_fields_def name_char_def lbw_char_def)
  have w: "list_all py_isspace '' ''" by (simp add: py_isspace_def)
  have t3: "ref_text ''A'' ''1'' (Some '' '') = ''<lora:A:1: >''"
    and t2: "ref_text ''A'' ''1'' None = ''<lora:A:1>''"
    by (simp_all add: ref_text_def)
  note th = whitespace_lbw_is_dropped[OF bare_env_index v w, of decimal_ops "Some [''A'']",
      unfolded t3 t2]
  have r1: "extract_loras_from_prompt decimal_ops bare_env (PStr ''<lora:A:1: >'') (Some [''A''])
       = Inr ([''A''], ''A:1.0'')"
    using th[THEN conjunct1] by (simp add: first_match_def read_weight_def decimal_one)
  have r2: "extract_loras_from_prompt decimal_ops bare_env (PStr ''<lora:A:1: >'') (Some [''A''])
       = extract_loras_from_prompt decimal_ops bare_env (PStr ''<lora:A:1>'') (Some [''A''])"
    using th[THEN conjunct2, THEN conjunct1] .
  show ?thesis by (intro conjI bare_env_index v w t3 r1 r2)
qed

end
